theory Spec2Isabelle
  imports Main "HOL-Library.Word"
begin

unbundle bit_operations_syntax

section \<open>Packet codec of \<^verbatim>\<open>lib/mtp-utils.ts\<close>\<close>

text \<open>
  A \<^verbatim>\<open>Uint8Array\<close> is a list of bytes. The JavaScript numbers that the codec handles are
  integer valued (opcodes, transaction ids, lengths, parameters), so they are modelled as
  \<open>int\<close>. A \<^verbatim>\<open>DataView\<close> accessor throws \<^verbatim>\<open>RangeError\<close> when the
  access does not fit into the view; that exception is the \<open>Inl\<close> branch of a sum.
\<close>

type_synonym byte = "8 word"

datatype js_error = RangeError

text \<open>\<^verbatim>\<open>view.setUint16(off, v, true)\<close>: the low 16 bits of \<open>v\<close>, low byte first.\<close>

definition setUint16 :: "byte list \<Rightarrow> nat \<Rightarrow> int \<Rightarrow> js_error + byte list" where
  "setUint16 view off v =
     (if length view < off + 2 then Inl RangeError
      else Inr (view[off := word_of_int v, off + 1 := word_of_int (v div 256)]))"

text \<open>\<^verbatim>\<open>view.setUint32(off, v, true)\<close>: the low 32 bits of \<open>v\<close>, low byte first.\<close>

definition setUint32 :: "byte list \<Rightarrow> nat \<Rightarrow> int \<Rightarrow> js_error + byte list" where
  "setUint32 view off v =
     (if length view < off + 4 then Inl RangeError
      else Inr (view[off := word_of_int v,
                     off + 1 := word_of_int (v div 256),
                     off + 2 := word_of_int (v div 65536),
                     off + 3 := word_of_int (v div 16777216)]))"

text \<open>\<^verbatim>\<open>view.getUint16(off, true)\<close> and \<^verbatim>\<open>view.getUint32(off, true)\<close>.\<close>

definition getUint16 :: "byte list \<Rightarrow> nat \<Rightarrow> js_error + int" where
  "getUint16 view off =
     (if length view < off + 2 then Inl RangeError
      else Inr (uint (view ! off) + 256 * uint (view ! (off + 1))))"

definition getUint32 :: "byte list \<Rightarrow> nat \<Rightarrow> js_error + int" where
  "getUint32 view off =
     (if length view < off + 4 then Inl RangeError
      else Inr (uint (view ! off) + 256 * uint (view ! (off + 1))
                + 65536 * uint (view ! (off + 2)) + 16777216 * uint (view ! (off + 3))))"

definition MTP_CONTAINER_TYPE_COMMAND :: int where
  "MTP_CONTAINER_TYPE_COMMAND = 0x0001"

text \<open>
  The \<^verbatim>\<open>params.forEach((param, index) => view.setUint32(headerLength + index * 4, param, true))\<close>
  loop of \<^verbatim>\<open>buildMtpCommandPacket\<close>, started at \<open>index\<close>.
\<close>

fun forEach_setParam :: "byte list \<Rightarrow> nat \<Rightarrow> int list \<Rightarrow> js_error + byte list" where
  "forEach_setParam view index [] = Inr view"
| "forEach_setParam view index (param # rest) =
     (case setUint32 view (12 + index * 4) param of
        Inl e \<Rightarrow> Inl e
      | Inr view' \<Rightarrow> forEach_setParam view' (Suc index) rest)"

definition buildMtpCommandPacket :: "int \<Rightarrow> int \<Rightarrow> int list \<Rightarrow> js_error + byte list" where
  "buildMtpCommandPacket opcode transactionId params =
     (let headerLength = 12;
          paramsLength = length params * 4;
          totalLength = headerLength + paramsLength;
          buffer = replicate totalLength (0 :: byte)
      in case setUint32 buffer 0 (int totalLength) of
           Inl e \<Rightarrow> Inl e
         | Inr v1 \<Rightarrow>
        (case setUint16 v1 4 MTP_CONTAINER_TYPE_COMMAND of
           Inl e \<Rightarrow> Inl e
         | Inr v2 \<Rightarrow>
        (case setUint16 v2 6 opcode of
           Inl e \<Rightarrow> Inl e
         | Inr v3 \<Rightarrow>
        (case setUint32 v3 8 transactionId of
           Inl e \<Rightarrow> Inl e
         | Inr v4 \<Rightarrow> forEach_setParam v4 0 params))))"

text \<open>The object that \<^verbatim>\<open>parseMtpResponse\<close> returns.\<close>

record mtp_container =
  c_length :: int
  c_type :: int
  c_code :: int
  c_transactionId :: int
  c_params :: "int list"

text \<open>
  The loop \<^verbatim>\<open>for (let i = 0; i < paramsCount; i++) params.push(view.getUint32(paramsStart + i * 4, true))\<close>.
  It ends when \<open>i\<close> reaches \<open>paramsCount\<close> or when a read throws.
\<close>

function read_params :: "byte list \<Rightarrow> nat \<Rightarrow> int \<Rightarrow> int list \<Rightarrow> js_error + int list" where
  "read_params view i paramsCount params =
     (if int i < paramsCount then
        (case getUint32 view (12 + i * 4) of
           Inl e \<Rightarrow> Inl e
         | Inr p \<Rightarrow> read_params view (Suc i) paramsCount (params @ [p]))
      else Inr params)"
  by pat_completeness auto
termination
  by (relation "measure (\<lambda>(view, i, paramsCount, params). nat (paramsCount - int i))") auto

declare read_params.simps [simp del]

text \<open>
  \<^verbatim>\<open>parseMtpResponse\<close>: \<open>Inr None\<close> is the \<^verbatim>\<open>null\<close> result, \<open>Inl RangeError\<close> the exception
  that leaves the function.
\<close>

definition parseMtpResponse :: "byte list \<Rightarrow> js_error + mtp_container option" where
  "parseMtpResponse data =
     (if length data < 12 then Inr None
      else
        (case getUint32 data 0 of Inl e \<Rightarrow> Inl e | Inr len \<Rightarrow>
        (case getUint16 data 4 of Inl e \<Rightarrow> Inl e | Inr type \<Rightarrow>
        (case getUint16 data 6 of Inl e \<Rightarrow> Inl e | Inr code \<Rightarrow>
        (case getUint32 data 8 of Inl e \<Rightarrow> Inl e | Inr transactionId \<Rightarrow>
           (let paramsStart = 12;
                paramsCount = (len - paramsStart) div 4
            in case read_params data 0 paramsCount [] of
                 Inl e \<Rightarrow> Inl e
               | Inr params \<Rightarrow>
                   Inr (Some \<lparr>c_length = len, c_type = type, c_code = code,
                              c_transactionId = transactionId, c_params = params\<rparr>)))))))"

text \<open>
  The wire layout of \<^verbatim>\<open>[len:u32][type:u16][code:u16][txId:u32][param:u32]...\<close>: a field of
  16 or 32 bits is its low bits, least significant byte first.
\<close>

definition u16le :: "int \<Rightarrow> byte list" where
  "u16le v = [word_of_int v, word_of_int (v div 256)]"

definition u32le :: "int \<Rightarrow> byte list" where
  "u32le v = [word_of_int v, word_of_int (v div 256),
              word_of_int (v div 65536), word_of_int (v div 16777216)]"

section \<open>Opcode text of \<^verbatim>\<open>lib/mtp-utils.ts\<close>\<close>

text \<open>
  JavaScript strings are modelled as \<open>string\<close>, which covers the code units below 256.
  \<^verbatim>\<open>String.prototype.trim\<close> removes white space and line terminators; below 256 these are
  TAB, LF, VT, FF, CR, SP and NBSP.
\<close>

definition isWhiteSpace :: "char \<Rightarrow> bool" where
  "isWhiteSpace c = (of_char c \<in> {9, 10, 11, 12, 13, 32, 160 :: nat})"

definition trim :: "string \<Rightarrow> string" where
  "trim s = rev (dropWhile isWhiteSpace (rev (dropWhile isWhiteSpace s)))"

text \<open>The character class \<^verbatim>\<open>[0-9A-Fa-f]\<close> and the value of such a digit.\<close>

definition isHexDigit :: "char \<Rightarrow> bool" where
  "isHexDigit c =
     (let n = of_char c :: nat
      in 48 \<le> n \<and> n \<le> 57 \<or> 65 \<le> n \<and> n \<le> 70 \<or> 97 \<le> n \<and> n \<le> 102)"

definition digitValue :: "char \<Rightarrow> int" where
  "digitValue c =
     (let n = of_char c :: nat
      in if n \<le> 57 then int n - 48 else if n \<le> 70 then int n - 55 else int n - 87)"

text \<open>\<^verbatim>\<open>hex.replace(/^0x/i, '')\<close>: a leading \<^verbatim>\<open>0x\<close> or \<^verbatim>\<open>0X\<close> of the raw input is removed.\<close>

fun replace_0x :: "string \<Rightarrow> string" where
  "replace_0x (c0 # c1 # rest) =
     (if c0 = CHR ''0'' \<and> (c1 = CHR ''x'' \<or> c1 = CHR ''X'') then rest else c0 # c1 # rest)"
| "replace_0x s = s"

text \<open>\<^verbatim>\<open>/^[0-9A-Fa-f]{1,4}$/.test(cleaned)\<close>.\<close>

definition test_hex_1_4 :: "string \<Rightarrow> bool" where
  "test_hex_1_4 s = (1 \<le> length s \<and> length s \<le> 4 \<and> list_all isHexDigit s)"

text \<open>The number that a run of hexadecimal digits denotes, read from the left.\<close>

definition hexValue :: "string \<Rightarrow> int" where
  "hexValue s = foldl (\<lambda>acc c. 16 * acc + digitValue c) 0 s"

text \<open>
  \<^verbatim>\<open>parseInt(s, 16)\<close>: leading white space is skipped, then an optional sign, then an optional
  \<^verbatim>\<open>0x\<close> or \<^verbatim>\<open>0X\<close>, then the longest run of hexadecimal digits is read; \<open>None\<close> is
  \<^verbatim>\<open>NaN\<close>, the result when that run is empty.
\<close>

definition parseInt16 :: "string \<Rightarrow> int option" where
  "parseInt16 s =
     (let s1 = dropWhile isWhiteSpace s;
          sign = (case s1 of c # _ \<Rightarrow> if c = CHR ''-'' then - 1 else 1 | [] \<Rightarrow> (1 :: int));
          s2 = (case s1 of c # r \<Rightarrow> if c = CHR ''-'' \<or> c = CHR ''+'' then r else s1 | [] \<Rightarrow> s1);
          s3 = replace_0x s2;
          z = takeWhile isHexDigit s3
      in if z = [] then None
         else Some (sign * hexValue z))"

definition parseHexOpcode :: "string \<Rightarrow> int option" where
  "parseHexOpcode hex =
     (let cleaned = trim (replace_0x hex)
      in if \<not> test_hex_1_4 cleaned then None
         else (case parseInt16 cleaned of
                 None \<Rightarrow> None
               | Some v \<Rightarrow> if v < 0 \<or> v > 0xFFFF then None else Some v))"

text \<open>
  The accepted strings in the words of the specification: white space is stripped first, then
  comes an optional prefix, then 1 to 4 hexadecimal digits.
\<close>

definition stated_parseHexOpcode :: "string \<Rightarrow> int option" where
  "stated_parseHexOpcode hex =
     (let digits = replace_0x (trim hex)
      in if test_hex_1_4 digits then Some (hexValue digits) else None)"

text \<open>
  \<^verbatim>\<open>code.toString(16)\<close> of an integer: lower-case digits without leading zeros, a minus sign
  in front of a negative number. \<open>hexChar\<close> is only applied to a digit value below 16.
\<close>

definition hexChar :: "nat \<Rightarrow> char" where
  "hexChar d = ''0123456789abcdef'' ! d"

function hexDigits :: "nat \<Rightarrow> string" where
  "hexDigits n = (if n < 16 then [hexChar n] else hexDigits (n div 16) @ [hexChar (n mod 16)])"
  by pat_completeness auto
termination
  by (relation "measure id") auto

declare hexDigits.simps [simp del]

definition toString16 :: "int \<Rightarrow> string" where
  "toString16 i = (if i < 0 then CHR ''-'' # hexDigits (nat (- i)) else hexDigits (nat i))"

text \<open>
  \<^verbatim>\<open>toUpperCase\<close> on the characters that \<^verbatim>\<open>toString(16)\<close> produces: the letters
  \<^verbatim>\<open>a\<close> to \<^verbatim>\<open>z\<close> go to \<^verbatim>\<open>A\<close> to \<^verbatim>\<open>Z\<close>, digits and the sign stay.
\<close>

definition toUpperCase :: "string \<Rightarrow> string" where
  "toUpperCase s =
     map (\<lambda>c. case map_of (zip ''abcdefghijklmnopqrstuvwxyz'' ''ABCDEFGHIJKLMNOPQRSTUVWXYZ'') c of
                None \<Rightarrow> c
              | Some u \<Rightarrow> u) s"

definition padStart :: "nat \<Rightarrow> char \<Rightarrow> string \<Rightarrow> string" where
  "padStart n pad s = replicate (n - length s) pad @ s"

definition formatOpcode :: "int \<Rightarrow> string" where
  "formatOpcode code = ''0x'' @ padStart 4 (CHR ''0'') (toUpperCase (toString16 code))"

text \<open>The upper-case digit for a value below 16.\<close>

definition upperHexChar :: "nat \<Rightarrow> char" where
  "upperHexChar d = ''0123456789ABCDEF'' ! d"

section \<open>Advisory opcode tables of \<^verbatim>\<open>lib/mtp-utils.ts\<close>\<close>

datatype category = dangerous | safe | read_only | unknown

record OpcodePreset =
  preset_code :: int
  preset_name :: string
  preset_category :: category

text \<open>\<^verbatim>\<open>PRESET_OPCODES\<close>, without the description and warning texts.\<close>

definition PRESET_OPCODES :: "OpcodePreset list" where
  "PRESET_OPCODES =
     [\<lparr>preset_code = 0xFE01, preset_name = ''Factory Reset'', preset_category = dangerous\<rparr>,
      \<lparr>preset_code = 0xFE03, preset_name = ''Enable ADB'', preset_category = safe\<rparr>,
      \<lparr>preset_code = 0xFE05, preset_name = ''Reboot Device'', preset_category = safe\<rparr>,
      \<lparr>preset_code = 0xFE07, preset_name = ''Read Device Info'', preset_category = read_only\<rparr>,
      \<lparr>preset_code = 0xFE09, preset_name = ''Read FRP Status'', preset_category = read_only\<rparr>,
      \<lparr>preset_code = 0xFE0B, preset_name = ''Clear FRP Lock'', preset_category = dangerous\<rparr>]"

record OpcodeRange =
  range_start :: int
  range_end :: int
  range_name :: string

text \<open>\<^verbatim>\<open>OPCODE_RANGES\<close>, without the description texts.\<close>

definition OPCODE_RANGES :: "OpcodeRange list" where
  "OPCODE_RANGES =
     [\<lparr>range_start = 0x1000, range_end = 0x1FFF, range_name = ''Standard MTP Operations''\<rparr>,
      \<lparr>range_start = 0x9000, range_end = 0x97FF, range_name = ''Vendor Extension Operations''\<rparr>,
      \<lparr>range_start = 0x9800, range_end = 0x9FFF, range_name = ''Microsoft MTP Extensions''\<rparr>,
      \<lparr>range_start = 0xFE00, range_end = 0xFEFF, range_name = ''Samsung Vendor Commands''\<rparr>,
      \<lparr>range_start = 0xFF00, range_end = 0xFFFF, range_name = ''Extended Vendor Commands''\<rparr>]"

definition getOpcodeRangeInfo :: "int \<Rightarrow> OpcodeRange option" where
  "getOpcodeRangeInfo code =
     find (\<lambda>range. code \<ge> range_start range \<and> code \<le> range_end range) OPCODE_RANGES"

definition getOpcodeCategory :: "int \<Rightarrow> category" where
  "getOpcodeCategory code =
     (case find (\<lambda>p. preset_code p = code) PRESET_OPCODES of
        None \<Rightarrow> unknown
      | Some preset \<Rightarrow> preset_category preset)"

section \<open>The native module \<^verbatim>\<open>UsbMtpModule.kt\<close>\<close>

text \<open>
  A Kotlin \<^verbatim>\<open>Int\<close> that the module computes with is a 32-bit word; the return values of
  \<^verbatim>\<open>bulkTransfer\<close> are only compared, and are modelled as \<open>int\<close>.
\<close>

type_synonym kint = "32 word"

record UsbEndpoint =
  ep_type :: int
  ep_direction :: int
  ep_address :: int

record UsbInterface =
  interfaceClass :: int
  endpoints :: "UsbEndpoint list"

record UsbDevice =
  deviceId :: int
  deviceName :: string
  interfaces :: "UsbInterface list"

datatype UsbDeviceConnection = Connection int

text \<open>The values of \<^verbatim>\<open>android.hardware.usb.UsbConstants\<close> that the module compares with.\<close>

definition USB_CLASS_STILL_IMAGE :: int where "USB_CLASS_STILL_IMAGE = 6"
definition USB_CLASS_VENDOR_SPEC :: int where "USB_CLASS_VENDOR_SPEC = 0xFF"
definition USB_ENDPOINT_XFER_BULK :: int where "USB_ENDPOINT_XFER_BULK = 2"
definition USB_DIR_OUT :: int where "USB_DIR_OUT = 0"
definition USB_DIR_IN :: int where "USB_DIR_IN = 0x80"

text \<open>
  What the Android USB host answers to the calls of \<^verbatim>\<open>openConnection\<close>: the device list of
  the \<^verbatim>\<open>UsbManager\<close>, \<^verbatim>\<open>hasPermission\<close>, \<^verbatim>\<open>openDevice\<close> (\<open>None\<close> is \<^verbatim>\<open>null\<close>)
  and \<^verbatim>\<open>claimInterface\<close> of the connection.
\<close>

record usb_host =
  deviceList :: "UsbDevice list"
  hasPermission :: "UsbDevice \<Rightarrow> bool"
  openDevice :: "UsbDevice \<Rightarrow> UsbDeviceConnection option"
  claimInterface :: "UsbDeviceConnection \<Rightarrow> UsbInterface \<Rightarrow> bool"

text \<open>The mutable fields of the module that the connection and the send path use.\<close>

record module_state =
  currentDevice :: "UsbDevice option"
  currentConnection :: "UsbDeviceConnection option"
  currentInterface :: "UsbInterface option"
  bulkOutEndpoint :: "UsbEndpoint option"
  bulkInEndpoint :: "UsbEndpoint option"
  transactionId :: kint

text \<open>The field initialisers of the class.\<close>

definition initial_state :: module_state where
  "initial_state =
     \<lparr>currentDevice = None, currentConnection = None, currentInterface = None,
      bulkOutEndpoint = None, bulkInEndpoint = None, transactionId = 1\<rparr>"

text \<open>The codes with which the module rejects a promise.\<close>

datatype reject =
    DEVICE_NOT_FOUND | NO_PERMISSION | CONNECTION_FAILED | NO_MTP_INTERFACE | CLAIM_FAILED
  | NOT_CONNECTED | TRANSFER_FAILED int | SEND_ERROR

text \<open>The private \<^verbatim>\<open>closeConnection()\<close>: it leaves \<open>transactionId\<close> as it is.\<close>

definition closeConnection :: "module_state \<Rightarrow> module_state" where
  "closeConnection st =
     st\<lparr>currentDevice := None, currentConnection := None, currentInterface := None,
        bulkOutEndpoint := None, bulkInEndpoint := None\<rparr>"

text \<open>
  The inner loop over the endpoints of an interface in the first search of
  \<^verbatim>\<open>openConnection\<close>: a later bulk endpoint of a direction replaces an earlier one.
\<close>

fun scan_endpoints ::
  "UsbEndpoint list \<Rightarrow> UsbEndpoint option \<times> UsbEndpoint option
     \<Rightarrow> UsbEndpoint option \<times> UsbEndpoint option" where
  "scan_endpoints [] (outEndpoint, inEndpoint) = (outEndpoint, inEndpoint)"
| "scan_endpoints (endpoint # rest) (outEndpoint, inEndpoint) =
     (if ep_type endpoint = USB_ENDPOINT_XFER_BULK then
        (if ep_direction endpoint = USB_DIR_OUT then
           scan_endpoints rest (Some endpoint, inEndpoint)
         else if ep_direction endpoint = USB_DIR_IN then
           scan_endpoints rest (outEndpoint, Some endpoint)
         else scan_endpoints rest (outEndpoint, inEndpoint))
      else scan_endpoints rest (outEndpoint, inEndpoint))"

text \<open>The inner loop of the second search: only the first bulk endpoint of a direction is kept.\<close>

fun scan_endpoints_first ::
  "UsbEndpoint list \<Rightarrow> UsbEndpoint option \<times> UsbEndpoint option
     \<Rightarrow> UsbEndpoint option \<times> UsbEndpoint option" where
  "scan_endpoints_first [] (outEndpoint, inEndpoint) = (outEndpoint, inEndpoint)"
| "scan_endpoints_first (endpoint # rest) (outEndpoint, inEndpoint) =
     (if ep_type endpoint = USB_ENDPOINT_XFER_BULK then
        (if ep_direction endpoint = USB_DIR_OUT \<and> outEndpoint = None then
           scan_endpoints_first rest (Some endpoint, inEndpoint)
         else if ep_direction endpoint = USB_DIR_IN \<and> inEndpoint = None then
           scan_endpoints_first rest (outEndpoint, Some endpoint)
         else scan_endpoints_first rest (outEndpoint, inEndpoint))
      else scan_endpoints_first rest (outEndpoint, inEndpoint))"

text \<open>
  The first search: interfaces of class still image or vendor specific, until one leaves both
  endpoints set. The endpoints found so far are carried from one interface to the next.
\<close>

fun find_mtp_interface ::
  "UsbInterface list \<Rightarrow> UsbEndpoint option \<times> UsbEndpoint option
     \<Rightarrow> UsbInterface option \<times> UsbEndpoint option \<times> UsbEndpoint option" where
  "find_mtp_interface [] (outEndpoint, inEndpoint) = (None, outEndpoint, inEndpoint)"
| "find_mtp_interface (intf # rest) (outEndpoint, inEndpoint) =
     (if interfaceClass intf = USB_CLASS_STILL_IMAGE
         \<or> interfaceClass intf = USB_CLASS_VENDOR_SPEC
         \<or> interfaceClass intf = 0xFF then
        (let found = scan_endpoints (endpoints intf) (outEndpoint, inEndpoint)
         in if fst found \<noteq> None \<and> snd found \<noteq> None then (Some intf, fst found, snd found)
            else find_mtp_interface rest found)
      else find_mtp_interface rest (outEndpoint, inEndpoint))"

text \<open>
  The second search: any interface with a bulk OUT endpoint; both endpoints are reset at each
  interface.
\<close>

fun find_bulk_interface ::
  "UsbInterface list \<Rightarrow> UsbEndpoint option \<times> UsbEndpoint option
     \<Rightarrow> UsbInterface option \<times> UsbEndpoint option \<times> UsbEndpoint option" where
  "find_bulk_interface [] (outEndpoint, inEndpoint) = (None, outEndpoint, inEndpoint)"
| "find_bulk_interface (intf # rest) (outEndpoint, inEndpoint) =
     (let found = scan_endpoints_first (endpoints intf) (None, None)
      in if fst found \<noteq> None then (Some intf, fst found, snd found)
         else find_bulk_interface rest found)"

record ConnectionInfo =
  info_deviceId :: int
  info_deviceName :: string
  info_interfaceClass :: int
  info_outEndpoint :: int
  info_inEndpoint :: int

text \<open>
  \<^verbatim>\<open>openConnection(deviceId, promise)\<close>: the settled promise and the fields afterwards. The
  Android calls are taken to return, so the \<^verbatim>\<open>catch\<close> branch is not reached.
\<close>

definition openConnection ::
  "usb_host \<Rightarrow> module_state \<Rightarrow> int \<Rightarrow> (reject + ConnectionInfo) \<times> module_state" where
  "openConnection host st devId =
     (case find (\<lambda>d. deviceId d = devId) (deviceList host) of
        None \<Rightarrow> (Inl DEVICE_NOT_FOUND, st)
      | Some device \<Rightarrow>
          if \<not> hasPermission host device then (Inl NO_PERMISSION, st)
          else
            (let st1 = closeConnection st
             in case openDevice host device of
                  None \<Rightarrow> (Inl CONNECTION_FAILED, st1)
                | Some connection \<Rightarrow>
                    (let first = find_mtp_interface (interfaces device) (None, None);
                         found = (if fst first = None
                                  then find_bulk_interface (interfaces device) (snd first)
                                  else first)
                     in case (fst found, fst (snd found)) of
                          (Some mtpInterface, Some outEndpoint) \<Rightarrow>
                            if \<not> claimInterface host connection mtpInterface
                            then (Inl CLAIM_FAILED, st1)
                            else
                              (Inr \<lparr>info_deviceId = deviceId device,
                                    info_deviceName = deviceName device,
                                    info_interfaceClass = interfaceClass mtpInterface,
                                    info_outEndpoint = ep_address outEndpoint,
                                    info_inEndpoint =
                                      (case snd (snd found) of
                                         None \<Rightarrow> - 1
                                       | Some inEndpoint \<Rightarrow> ep_address inEndpoint)\<rparr>,
                               \<lparr>currentDevice = Some device,
                                currentConnection = Some connection,
                                currentInterface = Some mtpInterface,
                                bulkOutEndpoint = Some outEndpoint,
                                bulkInEndpoint = snd (snd found),
                                transactionId = 1\<rparr>)
                        | _ \<Rightarrow> (Inl NO_MTP_INTERFACE, st1))))"

text \<open>
  \<^verbatim>\<open>ByteBuffer.putInt\<close> and \<^verbatim>\<open>putShort\<close> in little-endian order: the bytes that the call
  appends at the position of the buffer.
\<close>

definition putInt :: "kint \<Rightarrow> byte list" where
  "putInt w = [ucast w, ucast (drop_bit 8 w), ucast (drop_bit 16 w), ucast (drop_bit 24 w)]"

definition putShort :: "16 word \<Rightarrow> byte list" where
  "putShort w = [ucast w, ucast (drop_bit 8 w)]"

text \<open>The bytes that the puts of the private \<^verbatim>\<open>buildMtpCommandPacket\<close> append, in order.\<close>

definition kt_packet_bytes :: "kint \<Rightarrow> kint \<Rightarrow> kint \<Rightarrow> kint list \<Rightarrow> byte list" where
  "kt_packet_bytes totalSize opcode txId params =
     putInt totalSize @ putShort 0x0001 @ putShort (ucast opcode) @ putInt txId
       @ concat (map putInt params)"

text \<open>
  The private \<^verbatim>\<open>buildMtpCommandPacket\<close> of the module; \<open>None\<close> is an exception.
  \<^verbatim>\<open>totalSize\<close> is computed in 32 bits. \<^verbatim>\<open>ByteBuffer.allocate\<close> throws on a negative
  capacity, and a put that does not fit into the capacity throws; otherwise the capacity is
  exactly the number of bytes put (a wrapped size is never larger than the true one), and the
  array is those bytes.
\<close>

definition kt_buildMtpCommandPacket :: "kint \<Rightarrow> kint \<Rightarrow> kint list \<Rightarrow> byte list option" where
  "kt_buildMtpCommandPacket opcode txId params =
     (let headerSize = 12 :: kint;
          paramsSize = of_nat (length params) * 4;
          totalSize = headerSize + paramsSize
      in if sint totalSize < 0 then None
         else if nat (sint totalSize) < 12 + 4 * length params then None
         else Some (kt_packet_bytes totalSize opcode txId params))"

text \<open>
  What the device does during one \<^verbatim>\<open>sendMtpCommand\<close>: the return value of the bulk
  transfer on the OUT endpoint for a packet, the return value of the bulk transfer on the IN
  endpoint, and the bytes that this transfer stores at the start of the buffer.
\<close>

record usb_transfer =
  out_result :: "byte list \<Rightarrow> int"
  in_result :: int
  in_bytes :: "byte list"

text \<open>\<^verbatim>\<open>ByteArray(512)\<close> after the transfer on the IN endpoint.\<close>

definition responseBuffer :: "usb_transfer \<Rightarrow> byte list" where
  "responseBuffer io = take 512 (in_bytes io @ replicate 512 0)"

text \<open>\<^verbatim>\<open>array.copyOf(n)\<close>: truncated or padded with zeros to \<open>n\<close> elements.\<close>

definition copyOf :: "byte list \<Rightarrow> nat \<Rightarrow> byte list" where
  "copyOf array n = take n (array @ replicate n 0)"

text \<open>
  The code field as the module reads it from a wrapped buffer: \<^verbatim>\<open>buffer.int\<close>,
  \<^verbatim>\<open>buffer.short\<close>, then \<^verbatim>\<open>buffer.short.toInt() and 0xFFFF\<close>, which are the bytes 6 and 7.
\<close>

definition read_responseCode :: "byte list \<Rightarrow> int" where
  "read_responseCode buffer = uint (buffer ! 6) + 256 * uint (buffer ! 7)"

record MtpCommandResult =
  r_bytesSent :: int
  r_opcode :: kint
  r_transactionId :: kint
  r_responseCode :: int
  r_success :: bool
  r_responseData :: "int list option"

text \<open>
  One call of \<^verbatim>\<open>sendMtpCommand\<close>: the settled promise, the packet handed to the bulk transfer
  on the OUT endpoint (\<open>None\<close> when the call does not get there) and the fields afterwards.
  The opcode and the parameters are the \<^verbatim>\<open>Int\<close> values that arrive in the module.
  \<^verbatim>\<open>transactionId++\<close> is evaluated as an argument, before the packet is built. An exception
  of the packet builder ends in the \<^verbatim>\<open>catch\<close> branch; the bulk transfers are taken to return.
\<close>

record send_effect =
  promise :: "reject + MtpCommandResult"
  wire :: "byte list option"
  after :: module_state

definition sendMtpCommand ::
  "usb_transfer \<Rightarrow> module_state \<Rightarrow> kint \<Rightarrow> kint list \<Rightarrow> send_effect" where
  "sendMtpCommand io st opcode params =
     (if currentConnection st = None \<or> bulkOutEndpoint st = None then
        \<lparr>promise = Inl NOT_CONNECTED, wire = None, after = st\<rparr>
      else
        (let st' = st\<lparr>transactionId := transactionId st + 1\<rparr>
         in case kt_buildMtpCommandPacket opcode (transactionId st) params of
              None \<Rightarrow> \<lparr>promise = Inl SEND_ERROR, wire = None, after = st'\<rparr>
            | Some packet \<Rightarrow>
         (let bytesSent = out_result io packet
          in if bytesSent < 0 then
               \<lparr>promise = Inl (TRANSFER_FAILED bytesSent), wire = Some packet, after = st'\<rparr>
             else
               (let bytesRead = in_result io;
                    responseCode =
                      (if bulkInEndpoint st \<noteq> None \<and> bytesRead > 0 \<and> bytesRead \<ge> 12
                       then read_responseCode (responseBuffer io) else - 1);
                    responseData =
                      (if bulkInEndpoint st \<noteq> None \<and> bytesRead > 0
                       then Some (map uint (copyOf (responseBuffer io) (nat bytesRead)))
                       else None)
                in \<lparr>promise = Inr \<lparr>r_bytesSent = bytesSent, r_opcode = opcode,
                                    r_transactionId = transactionId st' - 1,
                                    r_responseCode = responseCode,
                                    r_success = (bytesSent > 0),
                                    r_responseData = responseData\<rparr>,
                    wire = Some packet, after = st'\<rparr>))))"

text \<open>A run of calls of \<^verbatim>\<open>sendMtpCommand\<close>, each with its own device behaviour.\<close>

fun send_all ::
  "module_state \<Rightarrow> (kint \<times> kint list \<times> usb_transfer) list \<Rightarrow> send_effect list \<times> module_state" where
  "send_all st [] = ([], st)"
| "send_all st ((opcode, params, io) # rest) =
     (let eff = sendMtpCommand io st opcode params;
          run = send_all (after eff) rest
      in (eff # fst run, snd run))"

text \<open>The transaction id field of the packet that a call put on the wire.\<close>

definition wire_transactionId :: "send_effect \<Rightarrow> int option" where
  "wire_transactionId eff =
     (case wire eff of
        None \<Rightarrow> None
      | Some packet \<Rightarrow> (case getUint32 packet 8 of Inl e \<Rightarrow> None | Inr v \<Rightarrow> Some v))"

section \<open>The hook \<^verbatim>\<open>use-usb-device.ts\<close>\<close>

text \<open>
  \<^verbatim>\<open>sendCommand\<close> of the hook, as far as its result goes: \<open>isConnected\<close> is the flag of the
  hook, \<open>connect\<close> its callback (the result and the native fields afterwards),
  \<open>nativeAvailable\<close> tells whether the wrapper reaches the native module (it returns
  \<^verbatim>\<open>null\<close> otherwise). A rejected promise and a thrown error end in the \<^verbatim>\<open>catch\<close> branch,
  which returns \<^verbatim>\<open>false\<close>. The opcode and the parameters are given as they arrive in the
  native module; the command log of the hook is left out.
\<close>

definition sendCommand ::
  "bool \<Rightarrow> (module_state \<Rightarrow> bool \<times> module_state) \<Rightarrow> bool \<Rightarrow> usb_transfer \<Rightarrow> module_state
     \<Rightarrow> kint \<Rightarrow> kint list \<Rightarrow> bool \<times> module_state" where
  "sendCommand isConnected connect nativeAvailable io st opcode params =
     (let connected = (if \<not> isConnected then connect st else (True, st))
      in if \<not> fst connected then (False, snd connected)
         else if \<not> nativeAvailable then (False, snd connected)
         else
           (let eff = sendMtpCommand io (snd connected) opcode params
            in case promise eff of
                 Inl e \<Rightarrow> (False, after eff)
               | Inr result \<Rightarrow>
                   (r_success result
                      \<and> (r_responseCode result = - 1 \<or> r_responseCode result = 0x2001),
                    after eff)))"

text \<open>
  The success policy in the words of the specification: the write succeeded and either no
  response was observed (no IN endpoint, a timeout or a zero-byte read) or the response code
  is \<^verbatim>\<open>0x2001\<close>.
\<close>

definition no_response_observed :: "usb_transfer \<Rightarrow> module_state \<Rightarrow> bool" where
  "no_response_observed io st = (bulkInEndpoint st = None \<or> in_result io \<le> 0)"

definition stated_success :: "send_effect \<Rightarrow> usb_transfer \<Rightarrow> module_state \<Rightarrow> bool" where
  "stated_success eff io st =
     (case promise eff of
        Inl e \<Rightarrow> False
      | Inr result \<Rightarrow>
          r_bytesSent result > 0
            \<and> (no_response_observed io st \<or> r_responseCode result = 0x2001))"

section \<open>A device, a session and two device behaviours\<close>

definition example_endpoint_out :: UsbEndpoint where
  "example_endpoint_out = \<lparr>ep_type = 2, ep_direction = 0, ep_address = 1\<rparr>"

definition example_endpoint_in :: UsbEndpoint where
  "example_endpoint_in = \<lparr>ep_type = 2, ep_direction = 0x80, ep_address = 0x81\<rparr>"

definition example_interface :: UsbInterface where
  "example_interface =
     \<lparr>interfaceClass = 6, endpoints = [example_endpoint_out, example_endpoint_in]\<rparr>"

definition example_device :: UsbDevice where
  "example_device =
     \<lparr>deviceId = 1002, deviceName = ''/dev/bus/usb/001/002'', interfaces = [example_interface]\<rparr>"

definition example_host :: usb_host where
  "example_host =
     \<lparr>deviceList = [example_device], hasPermission = (\<lambda>d. True),
      openDevice = (\<lambda>d. Some (Connection (deviceId d))), claimInterface = (\<lambda>c i. True)\<rparr>"

text \<open>The fields after \<^verbatim>\<open>openConnection(1002)\<close> on that host.\<close>

definition example_connected :: module_state where
  "example_connected =
     \<lparr>currentDevice = Some example_device, currentConnection = Some (Connection 1002),
      currentInterface = Some example_interface, bulkOutEndpoint = Some example_endpoint_out,
      bulkInEndpoint = Some example_endpoint_in, transactionId = 1\<rparr>"

text \<open>A device that takes the whole packet and answers with five bytes.\<close>

definition short_read :: usb_transfer where
  "short_read =
     \<lparr>out_result = (\<lambda>packet. int (length packet)), in_result = 5, in_bytes = [1, 2, 3, 4, 5]\<rparr>"

text \<open>A device on which the bulk transfer on the OUT endpoint fails.\<close>

definition failing_write :: usb_transfer where
  "failing_write =
     \<lparr>out_result = (\<lambda>packet. - 1), in_result = 12,
      in_bytes = [0x0C, 0, 0, 0, 0x03, 0, 0x05, 0x20, 0x01, 0, 0, 0]\<rparr>"

section \<open>Layout of the packet that \<^verbatim>\<open>buildMtpCommandPacket\<close> builds\<close>

lemma length_u16le [simp]: "length (u16le v) = 2"
  by (simp add: u16le_def)

lemma length_u32le [simp]: "length (u32le v) = 4"
  by (simp add: u32le_def)

lemma length_concat_u32le [simp]: "length (concat (map u32le ps)) = length ps * 4"
  by (induction ps) simp_all

lemma setUint32_append:
  assumes "length pre = off" and "length old = 4"
  shows "setUint32 (pre @ old @ post) off v = Inr (pre @ u32le v @ post)"
proof -
  from assms(2) obtain a b c d where "old = [a, b, c, d]"
    by (auto simp: numeral_eq_Suc length_Suc_conv)
  with assms(1) show ?thesis
    by (simp add: setUint32_def u32le_def list_update_append)
qed

lemma setUint16_append:
  assumes "length pre = off" and "length old = 2"
  shows "setUint16 (pre @ old @ post) off v = Inr (pre @ u16le v @ post)"
proof -
  from assms(2) obtain a b where "old = [a, b]"
    by (auto simp: numeral_eq_Suc length_Suc_conv)
  with assms(1) show ?thesis
    by (simp add: setUint16_def u16le_def list_update_append)
qed

lemma forEach_setParam_append:
  "length pre = 12 + index * 4 \<Longrightarrow>
   forEach_setParam (pre @ replicate (length ps * 4) 0) index ps
     = Inr (pre @ concat (map u32le ps))"
proof (induction ps arbitrary: pre index)
  case Nil
  then show ?case by simp
next
  case (Cons p ps)
  have "setUint32 (pre @ replicate 4 0 @ replicate (length ps * 4) 0) (12 + index * 4) p
          = Inr (pre @ u32le p @ replicate (length ps * 4) 0)"
    using Cons.prems by (intro setUint32_append) simp_all
  moreover have "forEach_setParam ((pre @ u32le p) @ replicate (length ps * 4) 0) (Suc index) ps
          = Inr ((pre @ u32le p) @ concat (map u32le ps))"
    using Cons.prems by (intro Cons.IH) simp
  ultimately show ?case
    by (simp add: replicate_add)
qed

lemma buildMtpCommandPacket_bytes:
  "buildMtpCommandPacket opcode txId ps
     = Inr (u32le (int (12 + length ps * 4)) @ u16le 1 @ u16le opcode
            @ u32le txId @ concat (map u32le ps))"
proof -
  let ?n = "length ps * 4"
  let ?z = "replicate ?n (0::byte)"
  let ?len = "u32le (int (12 + ?n))"
  have buf: "replicate (12 + ?n) (0::byte)
      = [] @ replicate 4 0 @ (replicate 2 0 @ replicate 2 0 @ replicate 4 0 @ ?z)"
    by (simp add: replicate_add [symmetric])
  have s1: "setUint32 ([] @ replicate 4 0 @ (replicate 2 0 @ replicate 2 0 @ replicate 4 0 @ ?z))
              0 (int (12 + ?n))
      = Inr ([] @ ?len @ (replicate 2 0 @ replicate 2 0 @ replicate 4 0 @ ?z))"
    by (rule setUint32_append) simp_all
  have s2: "setUint16 (?len @ replicate 2 0 @ (replicate 2 0 @ replicate 4 0 @ ?z)) 4 1
      = Inr (?len @ u16le 1 @ (replicate 2 0 @ replicate 4 0 @ ?z))"
    by (rule setUint16_append) simp_all
  have s3: "setUint16 ((?len @ u16le 1) @ replicate 2 0 @ (replicate 4 0 @ ?z)) 6 opcode
      = Inr ((?len @ u16le 1) @ u16le opcode @ (replicate 4 0 @ ?z))"
    by (rule setUint16_append) simp_all
  have s4: "setUint32 ((?len @ u16le 1 @ u16le opcode) @ replicate 4 0 @ ?z) 8 txId
      = Inr ((?len @ u16le 1 @ u16le opcode) @ u32le txId @ ?z)"
    by (rule setUint32_append) simp_all
  have s5: "forEach_setParam ((?len @ u16le 1 @ u16le opcode @ u32le txId) @ ?z) 0 ps
      = Inr ((?len @ u16le 1 @ u16le opcode @ u32le txId) @ concat (map u32le ps))"
    by (rule forEach_setParam_append) simp
  show ?thesis
    unfolding buildMtpCommandPacket_def Let_def MTP_CONTAINER_TYPE_COMMAND_def buf
    using s1 s2 s3 s4 s5 by simp
qed

section \<open>Reading fields back\<close>

lemma uint_byte_of_int: "uint (word_of_int v :: byte) = v mod 256"
  by (simp add: uint_word_of_int)

lemma le16_value: "v mod 256 + 256 * (v div 256 mod 256) = v mod 65536" for v :: int
proof -
  have "v mod (256 * 256) = 256 * (v div 256 mod 256) + v mod 256"
    by (rule zmod_zmult2_eq) simp
  then show ?thesis
    by (simp only: add.commute numeral_times_numeral mult_num_simps num.simps)
qed

lemma le32_combine:
  "m = 65536 * (256 * h1 + h0) + l \<Longrightarrow> l + 65536 * h0 + 16777216 * h1 = m" for m :: int
  by simp

lemma le32_value:
  "v mod 256 + 256 * (v div 256 mod 256) + 65536 * (v div 65536 mod 256)
     + 16777216 * (v div 16777216 mod 256) = v mod 4294967296" for v :: int
proof -
  have a: "v mod (65536 * 65536) = 65536 * (v div 65536 mod 65536) + v mod 65536"
    by (rule zmod_zmult2_eq) simp
  have b: "v div 65536 mod (256 * 256)
             = 256 * (v div 65536 div 256 mod 256) + v div 65536 mod 256"
    by (rule zmod_zmult2_eq) simp
  have c: "v div 65536 div 256 = v div (65536 * 256)"
    by (rule zdiv_zmult2_eq [symmetric]) simp
  have n: "(65536 :: int) * 65536 = 4294967296" "(256 :: int) * 256 = 65536"
    "(65536 :: int) * 256 = 16777216"
    by simp_all
  have "v mod 4294967296 = 65536 * (256 * (v div 16777216 mod 256) + v div 65536 mod 256)
          + (v mod 256 + 256 * (v div 256 mod 256))"
    using a b c unfolding n le16_value by (simp only:)
  then show ?thesis by (rule le32_combine)
qed

lemma getUint32_append:
  "length pre = off \<Longrightarrow> getUint32 (pre @ u32le v @ post) off = Inr (v mod 4294967296)"
  by (simp add: getUint32_def u32le_def nth_append uint_byte_of_int le32_value)

lemma getUint16_append:
  "length pre = off \<Longrightarrow> getUint16 (pre @ u16le v @ post) off = Inr (v mod 65536)"
  by (simp add: getUint16_def u16le_def nth_append uint_byte_of_int le16_value)

lemma read_params_append:
  "length pre = 12 + i * 4 \<Longrightarrow>
   read_params (pre @ concat (map u32le ps)) i (int i + int (length ps)) acc
     = Inr (acc @ map (\<lambda>p. p mod 4294967296) ps)"
proof (induction ps arbitrary: pre i acc)
  case Nil
  then show ?case by (simp add: read_params.simps)
next
  case (Cons p ps)
  have g: "getUint32 (pre @ u32le p @ concat (map u32le ps)) (12 + i * 4)
             = Inr (p mod 4294967296)"
    using Cons.prems by (intro getUint32_append) simp
  have r: "read_params ((pre @ u32le p) @ concat (map u32le ps)) (Suc i)
             (int (Suc i) + int (length ps)) (acc @ [p mod 4294967296])
           = Inr ((acc @ [p mod 4294967296]) @ map (\<lambda>p. p mod 4294967296) ps)"
    using Cons.prems by (intro Cons.IH) simp
  show ?case
    using g r by (subst read_params.simps) (simp add: algebra_simps)
qed

lemma parseMtpResponse_built:
  assumes "packet = u32le (int (12 + length ps * 4)) @ u16le ty @ u16le opcode
            @ u32le txId @ concat (map u32le ps)"
    and "int (12 + length ps * 4) < 4294967296"
  shows "parseMtpResponse packet =
     Inr (Some \<lparr>c_length = int (12 + length ps * 4), c_type = ty mod 65536,
                c_code = opcode mod 65536, c_transactionId = txId mod 4294967296,
                c_params = map (\<lambda>p. p mod 4294967296) ps\<rparr>)"
proof -
  let ?len = "int (12 + length ps * 4)"
  have l: "length packet = 12 + length ps * 4"
    by (simp add: assms(1))
  have g0: "getUint32 packet 0 = Inr ?len"
    using getUint32_append [of "[]" 0 ?len] assms by simp
  have g4: "getUint16 packet 4 = Inr (ty mod 65536)"
    using getUint16_append [of "u32le ?len" 4 ty] assms(1) by simp
  have g6: "getUint16 packet 6 = Inr (opcode mod 65536)"
    using getUint16_append [of "u32le ?len @ u16le ty" 6 opcode] assms(1) by simp
  have g8: "getUint32 packet 8 = Inr (txId mod 4294967296)"
    using getUint32_append [of "u32le ?len @ u16le ty @ u16le opcode" 8 txId] assms(1)
    by simp
  have cnt: "(?len - 12) div 4 = int 0 + int (length ps)"
    by simp
  have rp: "read_params packet 0 ((?len - 12) div 4) []
              = Inr ([] @ map (\<lambda>p. p mod 4294967296) ps)"
    unfolding cnt
    using read_params_append [of "u32le ?len @ u16le ty @ u16le opcode @ u32le txId" 0 ps "[]"]
      assms(1) by simp
  show ?thesis
    unfolding parseMtpResponse_def Let_def using l g0 g4 g6 g8 rp by simp
qed

text \<open>
  C3. For an opcode in \<open>[0, 0xFFFF]\<close>, a transaction id in \<open>[0, 2\<^sup>3\<^sup>2 - 1]\<close> and at most five
  parameters, \<^verbatim>\<open>buildMtpCommandPacket\<close> returns exactly \<open>12 + 4 * length params\<close> bytes: the
  length as a little-endian 32-bit field, the type \<^verbatim>\<open>0x0001\<close> and the opcode as 16-bit
  fields, the transaction id and each parameter as 32-bit fields. The built bytes parse back
  with \<^verbatim>\<open>parseMtpResponse\<close> to the same opcode and transaction id, and
  \<^verbatim>\<open>buildMtpCommandPacket(0xFE01, 1, [])\<close> is the twelve bytes
  \<^verbatim>\<open>0C 00 00 00 01 00 01 FE 01 00 00 00\<close>.
\<close>

theorem buildMtpCommandPacket_layout:
  assumes "0 \<le> opcode" and "opcode \<le> 0xFFFF"
    and "0 \<le> txId" and "txId \<le> 2 ^ 32 - 1"
    and "length ps \<le> 5"
  shows "\<exists>packet r.
           buildMtpCommandPacket opcode txId ps = Inr packet
         \<and> length packet = 12 + 4 * length ps
         \<and> packet = u32le (int (12 + 4 * length ps)) @ u16le 0x0001 @ u16le opcode
                      @ u32le txId @ concat (map u32le ps)
         \<and> parseMtpResponse packet = Inr (Some r)
         \<and> c_code r = opcode \<and> c_transactionId r = txId
         \<and> buildMtpCommandPacket 0xFE01 1 []
              = Inr [12, 0, 0, 0, 0x01, 0x00, 0x01, 0xFE, 0x01, 0x00, 0x00, 0x00]"
proof -
  let ?packet = "u32le (int (12 + length ps * 4)) @ u16le 1 @ u16le opcode
                   @ u32le txId @ concat (map u32le ps)"
  have b: "buildMtpCommandPacket opcode txId ps = Inr ?packet"
    by (rule buildMtpCommandPacket_bytes)
  have small: "int (12 + length ps * 4) < 4294967296"
    using assms(5) by simp
  have p: "parseMtpResponse ?packet =
     Inr (Some \<lparr>c_length = int (12 + length ps * 4), c_type = 1 mod 65536,
                c_code = opcode mod 65536, c_transactionId = txId mod 4294967296,
                c_params = map (\<lambda>p. p mod 4294967296) ps\<rparr>)"
    using small by (intro parseMtpResponse_built) simp
  have o: "opcode mod 65536 = opcode"
    using assms(1,2) by simp
  have t: "txId mod 4294967296 = txId"
    using assms(3,4) by simp
  have ex: "buildMtpCommandPacket 0xFE01 1 []
              = Inr [12, 0, 0, 0, 0x01, 0x00, 0x01, 0xFE, 0x01, 0x00, 0x00, 0x00]"
    by (simp add: buildMtpCommandPacket_bytes u32le_def u16le_def)
  show ?thesis
    using b p o t ex by (simp add: mult.commute)
qed

theorem buildMtpCommandPacket_layout_witness:
  "\<exists>packet r.
     buildMtpCommandPacket 0xFE01 1 [0x12345678] = Inr packet
   \<and> length packet = 16
   \<and> packet = [16, 0, 0, 0, 0x01, 0x00, 0x01, 0xFE, 0x01, 0x00, 0x00, 0x00,
               0x78, 0x56, 0x34, 0x12]
   \<and> parseMtpResponse packet = Inr (Some r)
   \<and> c_code r = 0xFE01 \<and> c_transactionId r = 1"
proof -
  obtain packet r where
    "buildMtpCommandPacket 0xFE01 1 [0x12345678] = Inr packet"
    "length packet = 12 + 4 * length [0x12345678 :: int]"
    "packet = u32le (int (12 + 4 * length [0x12345678 :: int])) @ u16le 0x0001 @ u16le 0xFE01
                @ u32le 1 @ concat (map u32le [0x12345678])"
    "parseMtpResponse packet = Inr (Some r)" "c_code r = 0xFE01" "c_transactionId r = 1"
    using buildMtpCommandPacket_layout [of "0xFE01" 1 "[0x12345678]"] by force
  moreover have "u32le (int (12 + 4 * length [0x12345678 :: int])) @ u16le 0x0001
                   @ u16le 0xFE01 @ u32le 1 @ concat (map u32le [0x12345678])
      = [16, 0, 0, 0, 0x01, 0x00, 0x01, 0xFE, 0x01, 0x00, 0x00, 0x00, 0x78, 0x56, 0x34, 0x12]"
    by (simp add: u32le_def u16le_def)
  ultimately show ?thesis by simp
qed

section \<open>Short buffers\<close>

text \<open>
  C8. For every byte buffer shorter than 12 bytes, whatever its content,
  \<^verbatim>\<open>parseMtpResponse\<close> returns \<^verbatim>\<open>null\<close> (no container) and does not throw.
\<close>

theorem parseMtpResponse_short:
  "length data < 12 \<Longrightarrow> parseMtpResponse data = Inr None"
  by (simp add: parseMtpResponse_def)

theorem parseMtpResponse_short_witness:
  "length [0x01, 0x02, 0x03 :: byte] < 12 \<and> parseMtpResponse [0x01, 0x02, 0x03] = Inr None"
  using parseMtpResponse_short [of "[0x01, 0x02, 0x03]"] by simp

section \<open>The packet of the native module\<close>

lemma ucast_byte_of_uint: "(ucast w :: byte) = word_of_int (uint w)" for w :: "'a::len word"
  by (rule word_uint_eqI) (simp add: unsigned_ucast_eq uint_word_of_int_eq)

lemma ucast_drop_bit_byte:
  "(ucast (drop_bit n w) :: byte) = word_of_int (uint w div 2 ^ n)" for w :: "'a::len word"
proof -
  have "take_bit LENGTH('a) (uint w) = uint w"
    by (simp add: take_bit_int_eq_self_iff)
  then show ?thesis
    by (intro word_uint_eqI)
      (simp add: unsigned_ucast_eq uint_word_of_int_eq unsigned_drop_bit_eq drop_bit_int_def)
qed

lemma putInt_u32le: "putInt w = u32le (uint w)"
proof -
  have "(ucast w :: byte) = word_of_int (uint w)"
    "(ucast (drop_bit 8 w) :: byte) = word_of_int (uint w div 256)"
    "(ucast (drop_bit 16 w) :: byte) = word_of_int (uint w div 65536)"
    "(ucast (drop_bit 24 w) :: byte) = word_of_int (uint w div 16777216)"
    using ucast_drop_bit_byte [of 8 w] ucast_drop_bit_byte [of 16 w]
      ucast_drop_bit_byte [of 24 w] ucast_byte_of_uint [of w]
    by simp_all
  then show ?thesis
    unfolding putInt_def u32le_def by (simp only:)
qed

lemma putShort_u16le: "putShort w = u16le (uint w)"
proof -
  have "(ucast w :: byte) = word_of_int (uint w)"
    "(ucast (drop_bit 8 w) :: byte) = word_of_int (uint w div 256)"
    using ucast_drop_bit_byte [of 8 w] ucast_byte_of_uint [of w]
    by simp_all
  then show ?thesis
    unfolding putShort_def u16le_def by (simp only:)
qed

lemma kt_packet_bytes_u32le:
  "kt_packet_bytes totalSize opcode txId ps =
     u32le (uint totalSize) @ u16le 1
       @ u16le (uint (ucast opcode :: 16 word)) @ u32le (uint txId)
       @ concat (map (\<lambda>p. u32le (uint p)) ps)"
proof -
  have "putInt = (\<lambda>p. u32le (uint p))"
    by (rule ext) (rule putInt_u32le)
  then have "map putInt ps = map (\<lambda>p. u32le (uint p)) ps"
    by (simp only:)
  then show ?thesis
    unfolding kt_packet_bytes_def putInt_u32le putShort_u16le
    by simp
qed

lemma kt_packet_bytes_transactionId:
  "getUint32 (kt_packet_bytes totalSize opcode txId ps) 8 = Inr (uint txId)"
proof -
  let ?pre = "u32le (uint totalSize) @ u16le 1 @ u16le (uint (ucast opcode :: 16 word))"
  have "getUint32 (?pre @ u32le (uint txId) @ concat (map (\<lambda>p. u32le (uint p)) ps)) 8
          = Inr (uint txId mod 4294967296)"
    by (rule getUint32_append) simp
  moreover have "uint txId mod 4294967296 = uint txId"
    using uint_idem [of txId] by simp
  ultimately show ?thesis
    by (simp add: kt_packet_bytes_u32le)
qed

lemma sint_kint_of_nat: "m < 2 ^ 31 \<Longrightarrow> sint (of_nat m :: kint) = int m"
  by (simp add: signed_of_nat signed_take_bit_int_eq_self)

text \<open>When the size of the packet is below \<open>2\<^sup>3\<^sup>1\<close>, it does not wrap and the builder returns.\<close>

lemma kt_buildMtpCommandPacket_returns:
  assumes "12 + 4 * length ps < 2 ^ 31"
  shows "kt_buildMtpCommandPacket opcode txId ps
           = Some (kt_packet_bytes (12 + of_nat (length ps) * 4) opcode txId ps)"
proof -
  have w: "(12 :: kint) + of_nat (length ps) * 4 = of_nat (12 + 4 * length ps)"
    by simp
  have "sint (of_nat (12 + 4 * length ps) :: kint) = int (12 + 4 * length ps)"
    using assms by (rule sint_kint_of_nat)
  then show ?thesis
    unfolding kt_buildMtpCommandPacket_def Let_def w by simp
qed

lemma kt_packet_transactionId:
  assumes "kt_buildMtpCommandPacket opcode txId ps = Some packet"
  shows "getUint32 packet 8 = Inr (uint txId)"
  using assms kt_packet_bytes_transactionId
  by (auto simp: kt_buildMtpCommandPacket_def Let_def split: if_splits)

section \<open>Sending on a bound transport\<close>

lemma send_after:
  assumes "currentConnection st \<noteq> None" "bulkOutEndpoint st \<noteq> None"
  shows "after (sendMtpCommand io st opcode ps) = st\<lparr>transactionId := transactionId st + 1\<rparr>"
  using assms by (simp add: sendMtpCommand_def Let_def split: option.split)

lemma send_wire:
  assumes "currentConnection st \<noteq> None" "bulkOutEndpoint st \<noteq> None"
    and "kt_buildMtpCommandPacket opcode (transactionId st) ps = Some packet"
  shows "wire (sendMtpCommand io st opcode ps) = Some packet"
  using assms by (simp add: sendMtpCommand_def Let_def)

lemma send_wire_transactionId:
  assumes "currentConnection st \<noteq> None" "bulkOutEndpoint st \<noteq> None"
    and "12 + 4 * length ps < 2 ^ 31"
  shows "wire_transactionId (sendMtpCommand io st opcode ps) = Some (uint (transactionId st))"
proof -
  note b = kt_buildMtpCommandPacket_returns [OF assms(3), of opcode "transactionId st"]
  show ?thesis
    using send_wire [OF assms(1,2) b, of io] kt_packet_transactionId [OF b]
    by (simp add: wire_transactionId_def)
qed

lemma send_all_counter:
  assumes "currentConnection st \<noteq> None" "bulkOutEndpoint st \<noteq> None"
  shows "snd (send_all st cmds)
           = st\<lparr>transactionId := transactionId st + of_nat (length cmds)\<rparr>"
  using assms
proof (induction cmds arbitrary: st)
  case Nil
  then show ?case by simp
next
  case (Cons cmd cmds)
  obtain opcode ps io where cmd: "cmd = (opcode, ps, io)"
    by (cases cmd) auto
  let ?st' = "st\<lparr>transactionId := transactionId st + 1\<rparr>"
  have a: "after (sendMtpCommand io st opcode ps) = ?st'"
    using Cons.prems by (rule send_after)
  have ih: "snd (send_all ?st' cmds)
              = ?st'\<lparr>transactionId := transactionId ?st' + of_nat (length cmds)\<rparr>"
    using Cons.prems by (intro Cons.IH) simp_all
  show ?case
    using a ih by (simp add: cmd Let_def add.assoc)
qed

lemma send_all_wire:
  assumes "currentConnection st \<noteq> None" "bulkOutEndpoint st \<noteq> None"
    and "\<forall>cmd \<in> set cmds. 12 + 4 * length (fst (snd cmd)) < 2 ^ 31"
  shows "map wire_transactionId (fst (send_all st cmds))
           = map (\<lambda>k. Some (uint (transactionId st + of_nat k))) [0..<length cmds]"
  using assms
proof (induction cmds arbitrary: st)
  case Nil
  then show ?case by simp
next
  case (Cons cmd cmds)
  obtain opcode ps io where cmd: "cmd = (opcode, ps, io)"
    by (cases cmd) auto
  let ?st' = "st\<lparr>transactionId := transactionId st + 1\<rparr>"
  have small: "12 + 4 * length ps < 2 ^ 31"
    using Cons.prems(3) by (simp add: cmd)
  have a: "after (sendMtpCommand io st opcode ps) = ?st'"
    using Cons.prems(1,2) by (rule send_after)
  have w: "wire_transactionId (sendMtpCommand io st opcode ps) = Some (uint (transactionId st))"
    using Cons.prems(1,2) small by (rule send_wire_transactionId)
  have ih: "map wire_transactionId (fst (send_all ?st' cmds))
           = map (\<lambda>k. Some (uint (transactionId ?st' + of_nat k))) [0..<length cmds]"
    using Cons.prems by (intro Cons.IH) simp_all
  have shift: "map (\<lambda>k. Some (uint (transactionId st + of_nat k))) [0..<length (cmd # cmds)]
      = Some (uint (transactionId st))
        # map (\<lambda>k. Some (uint (transactionId ?st' + of_nat k))) [0..<length cmds]"
    by (simp add: upt_conv_Cons map_Suc_upt [symmetric] add.assoc del: upt_Suc)
  show ?case
    unfolding shift using a w ih by (simp add: cmd Let_def)
qed

lemma openConnection_bound:
  assumes "openConnection host st0 devId = (Inr info, st)"
  shows "currentConnection st \<noteq> None" and "bulkOutEndpoint st \<noteq> None"
    and "transactionId st = 1"
  using assms
  by (auto simp: openConnection_def Let_def split: option.splits if_splits prod.splits)

lemma uint_kint_of_nat: "m < 2 ^ 32 \<Longrightarrow> uint (of_nat m :: kint) = int m"
  by (simp add: unsigned_of_nat take_bit_nat_eq_self)

lemma ids_from_one:
  assumes "n < 2 ^ 32"
  shows "map (\<lambda>k. Some (uint ((1 :: kint) + of_nat k))) [0..<n]
           = map (\<lambda>k. Some (int k)) [1..<Suc n]"
proof -
  have "uint ((1 :: kint) + of_nat k) = int (Suc k)" if "k < n" for k
  proof -
    have "(1 :: kint) + of_nat k = of_nat (Suc k)" by simp
    moreover have "Suc k < 2 ^ 32" using that assms by simp
    ultimately show ?thesis by (simp only: uint_kint_of_nat)
  qed
  then have "map (\<lambda>k. Some (uint ((1 :: kint) + of_nat k))) [0..<n]
               = map (\<lambda>k. Some (int (Suc k))) [0..<n]"
    by (intro map_cong) simp_all
  also have "\<dots> = map (\<lambda>k. Some (int k)) (map Suc [0..<n])"
    by (simp add: comp_def)
  also have "map Suc [0..<n] = [1..<Suc n]"
    by (simp add: map_Suc_upt)
  finally show ?thesis .
qed

lemma strict_ids: "sorted_wrt (<) (map int [1..<Suc n]) \<and> distinct (map int [1..<Suc n])"
  by (simp add: sorted_wrt_map distinct_map inj_on_def del: upt_Suc)

lemma example_openConnection:
  "openConnection example_host initial_state 1002
     = (Inr \<lparr>info_deviceId = 1002, info_deviceName = ''/dev/bus/usb/001/002'',
             info_interfaceClass = 6, info_outEndpoint = 1, info_inEndpoint = 0x81\<rparr>,
        example_connected)"
  by (simp add: openConnection_def example_host_def example_device_def example_interface_def
      example_endpoint_out_def example_endpoint_in_def example_connected_def
      closeConnection_def initial_state_def USB_CLASS_STILL_IMAGE_def
      USB_ENDPOINT_XFER_BULK_def USB_DIR_OUT_def USB_DIR_IN_def USB_CLASS_VENDOR_SPEC_def)

lemma example_connected_bound:
  "currentConnection example_connected \<noteq> None" "bulkOutEndpoint example_connected \<noteq> None"
  "bulkInEndpoint example_connected \<noteq> None" "transactionId example_connected = 1"
  by (simp_all add: example_connected_def)

lemma example_packets:
  "kt_buildMtpCommandPacket 0xFE01 1 [] = Some [12, 0, 0, 0, 1, 0, 0x01, 0xFE, 1, 0, 0, 0]"
  "kt_buildMtpCommandPacket 0x0001 1 [] = Some [12, 0, 0, 0, 1, 0, 0x01, 0x00, 1, 0, 0, 0]"
  by (simp_all add: kt_buildMtpCommandPacket_def kt_packet_bytes_def putInt_def putShort_def)

text \<open>
  C6. \<^verbatim>\<open>openConnection\<close> leaves the transaction counter at 1. In a session of fewer than
  \<open>2\<^sup>3\<^sup>2\<close> sends on the opened transport, whatever the device answers (also when a transfer
  fails or no response arrives), the counter has advanced by exactly the number of sends; and
  when the packet of every send is shorter than \<open>2\<^sup>3\<^sup>1\<close> bytes, so that it is built, the
  packets on the wire carry the ids \<open>1, 2, \<dots>, n\<close> in send order: strictly increasing and
  without repetition. The bound on the sends is the 32-bit range of the counter, beyond which
  the specification leaves the wrapping open.
\<close>

theorem session_transaction_ids:
  assumes "openConnection host st0 devId = (Inr info, st)"
    and "length cmds < 2 ^ 32"
  shows "transactionId st = 1
       \<and> transactionId (snd (send_all st cmds)) = 1 + of_nat (length cmds)
       \<and> ((\<forall>cmd \<in> set cmds. 12 + 4 * length (fst (snd cmd)) < 2 ^ 31) \<longrightarrow>
            (\<exists>ids. map wire_transactionId (fst (send_all st cmds)) = map Some ids
               \<and> ids = map int [1..<Suc (length cmds)]
               \<and> sorted_wrt (<) ids \<and> distinct ids))"
proof -
  note b = openConnection_bound [OF assms(1)]
  have s: "snd (send_all st cmds)
             = st\<lparr>transactionId := transactionId st + of_nat (length cmds)\<rparr>"
    using b(1,2) by (rule send_all_counter)
  have "map wire_transactionId (fst (send_all st cmds))
          = map Some (map int [1..<Suc (length cmds)])"
    if "\<forall>cmd \<in> set cmds. 12 + 4 * length (fst (snd cmd)) < 2 ^ 31"
    using send_all_wire [OF b(1,2) that] ids_from_one [OF assms(2)]
    by (simp add: b(3) comp_def)
  then show ?thesis
    using s b(3) strict_ids [of "length cmds"] by simp
qed

theorem session_transaction_ids_witness:
  "openConnection example_host initial_state 1002
     = (Inr \<lparr>info_deviceId = 1002, info_deviceName = ''/dev/bus/usb/001/002'',
             info_interfaceClass = 6, info_outEndpoint = 1, info_inEndpoint = 0x81\<rparr>,
        example_connected)
   \<and> transactionId example_connected = 1
   \<and> transactionId (snd (send_all example_connected
        [(0xFE01, [], short_read), (0xFE03, [5], failing_write), (0x1001, [], short_read)])) = 4
   \<and> map wire_transactionId (fst (send_all example_connected
        [(0xFE01, [], short_read), (0xFE03, [5], failing_write), (0x1001, [], short_read)]))
       = [Some 1, Some 2, Some 3]"
proof -
  let ?cmds = "[(0xFE01, [], short_read), (0xFE03, [5], failing_write),
                (0x1001, [], short_read)]"
  note o = example_openConnection
  have l: "length ?cmds < 2 ^ 32" by simp
  from session_transaction_ids [OF o l] o show ?thesis
    by (simp add: upt_conv_Cons)
qed

text \<open>
  C5. A send on a module with no connection or no OUT endpoint is rejected with
  \<^verbatim>\<open>NOT_CONNECTED\<close>, puts nothing on the wire and leaves every field, the transaction
  counter included, as it was. That is the case after \<^verbatim>\<open>closeConnection\<close>, which keeps the
  counter, and in the initial state of the module.
\<close>

theorem send_not_connected:
  assumes "currentConnection st = None \<or> bulkOutEndpoint st = None"
  shows "sendMtpCommand io st opcode ps
           = \<lparr>promise = Inl NOT_CONNECTED, wire = None, after = st\<rparr>
       \<and> sendMtpCommand io (closeConnection st') opcode ps
           = \<lparr>promise = Inl NOT_CONNECTED, wire = None, after = closeConnection st'\<rparr>
       \<and> transactionId (closeConnection st') = transactionId st'
       \<and> sendMtpCommand io initial_state opcode ps
           = \<lparr>promise = Inl NOT_CONNECTED, wire = None, after = initial_state\<rparr>"
  using assms by (simp add: sendMtpCommand_def closeConnection_def initial_state_def)

theorem send_not_connected_witness:
  "(currentConnection (closeConnection example_connected) = None
      \<or> bulkOutEndpoint (closeConnection example_connected) = None)
   \<and> promise (sendMtpCommand short_read (closeConnection example_connected) 0xFE01 [7])
       = Inl NOT_CONNECTED
   \<and> transactionId (after (sendMtpCommand short_read (closeConnection example_connected) 0xFE01 [7]))
       = transactionId example_connected"
  using send_not_connected [of "closeConnection example_connected" short_read "0xFE01" "[7]"
      example_connected]
  by (simp add: closeConnection_def)

text \<open>
  C10. When the bulk transfer on the OUT endpoint of a bound transport returns a negative
  value for the built packet, the send is rejected with \<^verbatim>\<open>TRANSFER_FAILED\<close> and the
  transaction counter is nevertheless one higher than before; nothing else of the module has
  changed.
\<close>

theorem transfer_failed_consumes_id:
  assumes "currentConnection st \<noteq> None" and "bulkOutEndpoint st \<noteq> None"
    and "kt_buildMtpCommandPacket opcode (transactionId st) ps = Some packet"
    and "out_result io packet < 0"
  shows "promise (sendMtpCommand io st opcode ps) = Inl (TRANSFER_FAILED (out_result io packet))
       \<and> after (sendMtpCommand io st opcode ps) = st\<lparr>transactionId := transactionId st + 1\<rparr>
       \<and> transactionId (after (sendMtpCommand io st opcode ps)) = transactionId st + 1"
  using assms by (simp add: sendMtpCommand_def Let_def)

theorem transfer_failed_consumes_id_witness:
  "currentConnection example_connected \<noteq> None \<and> bulkOutEndpoint example_connected \<noteq> None
   \<and> kt_buildMtpCommandPacket 0xFE01 (transactionId example_connected) []
       = Some [12, 0, 0, 0, 1, 0, 0x01, 0xFE, 1, 0, 0, 0]
   \<and> out_result failing_write [12, 0, 0, 0, 1, 0, 0x01, 0xFE, 1, 0, 0, 0] < 0
   \<and> promise (sendMtpCommand failing_write example_connected 0xFE01 [])
       = Inl (TRANSFER_FAILED (- 1))
   \<and> transactionId example_connected = 1
   \<and> transactionId (after (sendMtpCommand failing_write example_connected 0xFE01 [])) = 2"
proof -
  have p: "kt_buildMtpCommandPacket 0xFE01 (transactionId example_connected) []
             = Some [12, 0, 0, 0, 1, 0, 0x01, 0xFE, 1, 0, 0, 0]"
    by (simp add: example_connected_bound example_packets)
  have n: "out_result failing_write [12, 0, 0, 0, 1, 0, 0x01, 0xFE, 1, 0, 0, 0] < 0"
    by (simp add: failing_write_def)
  from transfer_failed_consumes_id [OF example_connected_bound(1,2) p n] p n
  show ?thesis
    by (simp add: example_connected_bound failing_write_def)
qed

text \<open>
  C9. On a bound transport every opcode is transmitted: for a parameter list whose packet is
  shorter than \<open>2\<^sup>3\<^sup>1\<close> bytes, the packet built from the opcode and the current transaction id
  is handed to the OUT endpoint, and the send is rejected neither as not connected nor with a send
  error. The opcode has no other influence: for any second opcode whose packet the device
  acknowledges with the same byte count, the send has the same outcome, apart from the opcode
  that the result echoes and the opcode bytes of the packet. The tables behind
  \<^verbatim>\<open>getOpcodeCategory\<close> and \<^verbatim>\<open>getOpcodeRangeInfo\<close> play no part.
\<close>

theorem send_ignores_classification:
  assumes "currentConnection st \<noteq> None" and "bulkOutEndpoint st \<noteq> None"
    and "12 + 4 * length ps < 2 ^ 31"
  shows "wire (sendMtpCommand io st opcode ps)
           = Some (kt_packet_bytes (12 + of_nat (length ps) * 4) opcode (transactionId st) ps)
       \<and> promise (sendMtpCommand io st opcode ps) \<noteq> Inl NOT_CONNECTED
       \<and> promise (sendMtpCommand io st opcode ps) \<noteq> Inl SEND_ERROR
       \<and> (\<forall>opcode'.
            out_result io
              (kt_packet_bytes (12 + of_nat (length ps) * 4) opcode' (transactionId st) ps)
              = out_result io
                  (kt_packet_bytes (12 + of_nat (length ps) * 4) opcode (transactionId st) ps)
            \<longrightarrow> sendMtpCommand io st opcode' ps
                  = \<lparr>promise = map_sum id (r_opcode_update (\<lambda>_. opcode'))
                                 (promise (sendMtpCommand io st opcode ps)),
                     wire = Some (kt_packet_bytes (12 + of_nat (length ps) * 4) opcode'
                                    (transactionId st) ps),
                     after = after (sendMtpCommand io st opcode ps)\<rparr>)"
  using assms(1,2) kt_buildMtpCommandPacket_returns [OF assms(3)]
  by (simp add: sendMtpCommand_def Let_def)

theorem send_ignores_classification_witness:
  "currentConnection example_connected \<noteq> None \<and> bulkOutEndpoint example_connected \<noteq> None
   \<and> getOpcodeCategory 0xFE01 = dangerous \<and> getOpcodeCategory 0x0001 = unknown
   \<and> getOpcodeRangeInfo 0x0001 = None
   \<and> wire (sendMtpCommand short_read example_connected 0x0001 [])
       = Some [12, 0, 0, 0, 1, 0, 1, 0, 1, 0, 0, 0]
   \<and> promise (sendMtpCommand short_read example_connected 0x0001 [])
       = map_sum id (r_opcode_update (\<lambda>_. 0x0001))
           (promise (sendMtpCommand short_read example_connected 0xFE01 []))"
proof -
  note c = example_connected_bound(1,2)
  have t: "transactionId example_connected = 1"
    by (rule example_connected_bound)
  have l: "12 + 4 * length ([] :: kint list) < 2 ^ 31"
    by simp
  have k: "kt_packet_bytes (12 + of_nat (length ([] :: kint list)) * 4) 0x0001 1 []
             = [12, 0, 0, 0, 1, 0, 1, 0, 1, 0, 0, 0]"
    "kt_packet_bytes (12 + of_nat (length ([] :: kint list)) * 4) 0xFE01 1 []
             = [12, 0, 0, 0, 1, 0, 0x01, 0xFE, 1, 0, 0, 0]"
    by (simp_all add: kt_packet_bytes_def putInt_def putShort_def)
  have o: "out_result short_read [12, 0, 0, 0, 1, 0, 1, 0, 1, 0, 0, 0]
       = out_result short_read [12, 0, 0, 0, 1, 0, 0x01, 0xFE, 1, 0, 0, 0]"
    by (simp add: short_read_def)
  have g: "getOpcodeCategory 0xFE01 = dangerous" "getOpcodeCategory 0x0001 = unknown"
    "getOpcodeRangeInfo 0x0001 = None"
    by (simp_all add: getOpcodeCategory_def getOpcodeRangeInfo_def PRESET_OPCODES_def
        OPCODE_RANGES_def)
  note send_ignores_classification [OF c l, of short_read "0xFE01", THEN conjunct2,
      THEN conjunct2, THEN conjunct2, THEN spec [of _ "0x0001 :: kint"], unfolded t k]
  then have e: "sendMtpCommand short_read example_connected 0x0001 []
          = \<lparr>promise = map_sum id (r_opcode_update (\<lambda>_. 0x0001))
                         (promise (sendMtpCommand short_read example_connected 0xFE01 [])),
             wire = Some [12, 0, 0, 0, 1, 0, 1, 0, 1, 0, 0, 0],
             after = after (sendMtpCommand short_read example_connected 0xFE01 [])\<rparr>"
    using o by (rule mp)
  have w: "wire (sendMtpCommand short_read example_connected 0x0001 [])
       = Some [12, 0, 0, 0, 1, 0, 1, 0, 1, 0, 0, 0]"
    by (subst e) (simp only: send_effect.simps)
  have p: "promise (sendMtpCommand short_read example_connected 0x0001 [])
       = map_sum id (r_opcode_update (\<lambda>_. 0x0001))
           (promise (sendMtpCommand short_read example_connected 0xFE01 []))"
    by (subst e) (simp only: send_effect.simps)
  show ?thesis
    using c g w p by (intro conjI)
qed

section \<open>The success flag\<close>

lemma read_responseCode_nonneg: "0 \<le> read_responseCode buffer"
  by (simp add: read_responseCode_def)

lemma read_responseCode_not_sentinel: "read_responseCode buffer \<noteq> - 1"
  using read_responseCode_nonneg [of buffer] by simp

text \<open>
  C2, as stated, fails on a short read. The device \<open>short_read\<close> takes the twelve bytes of
  the packet and answers with five bytes: a response was observed, no response code was
  decoded from it, and both the \<^verbatim>\<open>success\<close> field of the native result and the value that
  \<^verbatim>\<open>sendCommand\<close> returns are true.
\<close>

theorem stated_success_counterexample:
  "fst (sendCommand True (Pair True) True short_read example_connected 0xFE01 [])
     \<noteq> stated_success (sendMtpCommand short_read example_connected 0xFE01 []) short_read
         example_connected
   \<and> map_sum id r_success (promise (sendMtpCommand short_read example_connected 0xFE01 []))
     \<noteq> Inr (stated_success (sendMtpCommand short_read example_connected 0xFE01 []) short_read
             example_connected)"
  by (simp add: sendCommand_def sendMtpCommand_def stated_success_def no_response_observed_def
      Let_def example_connected_bound example_packets short_read_def)

text \<open>
  C2, amended. For a send that reaches a bound transport (the hook is connected, or its
  \<open>connect\<close> succeeds and leaves the transport bound) and whose packet is built,
  \<^verbatim>\<open>sendCommand\<close> returns true if and only if the write returned a positive byte count and
  either no response code was decoded (there is no IN endpoint, or the read returned fewer
  than 12 bytes: a timeout, a zero-byte read or a short read) or the decoded response code is
  \<^verbatim>\<open>0x2001\<close>. The \<^verbatim>\<open>success\<close> field of the native result alone is true if and only if the
  byte count is positive.
\<close>

theorem sendCommand_success_iff:
  assumes "conn = (if \<not> isConnected then connect st else (True, st))"
    and "fst conn"
    and "currentConnection (snd conn) \<noteq> None" and "bulkOutEndpoint (snd conn) \<noteq> None"
    and "kt_buildMtpCommandPacket opcode (transactionId (snd conn)) ps = Some packet"
  shows "(fst (sendCommand isConnected connect True io st opcode ps) \<longleftrightarrow>
            0 < out_result io packet
          \<and> (bulkInEndpoint (snd conn) = None \<or> in_result io < 12
               \<or> read_responseCode (responseBuffer io) = 0x2001))
       \<and> (\<forall>result. promise (sendMtpCommand io (snd conn) opcode ps) = Inr result \<longrightarrow>
             r_bytesSent result = out_result io packet
           \<and> (r_success result \<longleftrightarrow> 0 < out_result io packet))"
proof -
  have c: "(if \<not> isConnected then connect st else (True, st)) = conn"
    using assms(1) by simp
  show ?thesis
  proof (cases "out_result io packet < 0")
    case True
    then show ?thesis
      using assms(2-5) by (simp add: sendCommand_def c sendMtpCommand_def Let_def)
  next
    case False
    then show ?thesis
      using assms(2-5) read_responseCode_not_sentinel [of "responseBuffer io"]
      by (auto simp: sendCommand_def c sendMtpCommand_def Let_def)
  qed
qed

theorem sendCommand_success_iff_witness:
  "fst (True, example_connected)
   \<and> currentConnection example_connected \<noteq> None \<and> bulkOutEndpoint example_connected \<noteq> None
   \<and> kt_buildMtpCommandPacket 0xFE01 (transactionId example_connected) []
       = Some [12, 0, 0, 0, 1, 0, 0x01, 0xFE, 1, 0, 0, 0]
   \<and> fst (sendCommand True (Pair True) True short_read example_connected 0xFE01 [])
   \<and> 0 < out_result short_read [12, 0, 0, 0, 1, 0, 0x01, 0xFE, 1, 0, 0, 0]
   \<and> in_result short_read < 12"
proof -
  have p: "kt_buildMtpCommandPacket 0xFE01
             (transactionId (snd (True, example_connected))) []
             = Some [12, 0, 0, 0, 1, 0, 0x01, 0xFE, 1, 0, 0, 0]"
    by (simp add: example_connected_bound example_packets)
  from sendCommand_success_iff [of "(True, example_connected)" True "Pair True"
      example_connected "0xFE01" "[]" _ short_read, OF _ _ _ _ p, THEN conjunct1] p
  show ?thesis
    by (simp add: example_connected_bound short_read_def)
qed

section \<open>Opcode text: formatting and parsing\<close>

lemma all_less_16:
  assumes "d < 16"
    and "P 0" "P 1" "P 2" "P 3" "P 4" "P 5" "P 6" "P 7"
    and "P 8" "P 9" "P 10" "P 11" "P 12" "P 13" "P 14" "P 15"
  shows "P (d :: nat)"
proof -
  from assms(1) have "d = 0 \<or> d = 1 \<or> d = 2 \<or> d = 3 \<or> d = 4 \<or> d = 5 \<or> d = 6 \<or> d = 7
      \<or> d = 8 \<or> d = 9 \<or> d = 10 \<or> d = 11 \<or> d = 12 \<or> d = 13 \<or> d = 14 \<or> d = 15"
    by arith
  with assms(2-) show ?thesis
    by (elim disjE) (simp_all only:)
qed

lemma toUpperCase_hexChar: "d < 16 \<Longrightarrow> toUpperCase [hexChar d] = [upperHexChar d]"
  by (erule all_less_16) (simp_all add: toUpperCase_def hexChar_def upperHexChar_def)

lemma isHexDigit_upperHexChar: "d < 16 \<Longrightarrow> isHexDigit (upperHexChar d)"
  by (erule all_less_16) (simp_all add: upperHexChar_def isHexDigit_def)

lemma not_isWhiteSpace_upperHexChar: "d < 16 \<Longrightarrow> \<not> isWhiteSpace (upperHexChar d)"
  by (erule all_less_16) (simp_all add: upperHexChar_def isWhiteSpace_def)

lemma upperHexChar_not_sign_or_x:
  "d < 16 \<Longrightarrow> upperHexChar d \<notin> {CHR ''-'', CHR ''+'', CHR ''x'', CHR ''X''}"
  by (erule all_less_16) (simp_all add: upperHexChar_def)

lemma digitValue_upperHexChar: "d < 16 \<Longrightarrow> digitValue (upperHexChar d) = int d"
  by (erule all_less_16) (simp_all add: upperHexChar_def digitValue_def)

lemma hexDigits_step:
  "hexDigits n = (if n div 16 = 0 then [hexChar (n mod 16)]
                  else hexDigits (n div 16) @ [hexChar (n mod 16)])"
proof (cases "n < 16")
  case True
  then have "n div 16 = 0" "n mod 16 = n" by simp_all
  with True show ?thesis by (subst hexDigits.simps) simp
next
  case False
  then have "n div 16 \<noteq> 0" by (simp add: div_eq_0_iff)
  with False show ?thesis by (subst hexDigits.simps) simp
qed

lemma toUpperCase_Cons: "toUpperCase (c # s) = toUpperCase [c] @ toUpperCase s"
  by (simp add: toUpperCase_def)

lemma toUpperCase_Nil: "toUpperCase [] = []"
  by (simp add: toUpperCase_def)

lemma toUpperCase_hexChars:
  "list_all (\<lambda>d. d < 16) ds \<Longrightarrow> toUpperCase (map hexChar ds) = map upperHexChar ds"
proof (induction ds)
  case Nil
  then show ?case by (simp add: toUpperCase_Nil)
next
  case (Cons d ds)
  then have "toUpperCase [hexChar d] = [upperHexChar d]"
    and "toUpperCase (map hexChar ds) = map upperHexChar ds"
    by (simp_all add: toUpperCase_hexChar)
  then show ?case
    using toUpperCase_Cons [of "hexChar d" "map hexChar ds"] by simp
qed

lemma replicate_small:
  "replicate 3 x = [x, x, x]" "replicate 2 x = [x, x]" "replicate 1 x = [x]"
  by (simp_all add: numeral_3_eq_3 numeral_2_eq_2)

lemma upperHexChar_0: "upperHexChar 0 = CHR ''0''"
  by (simp add: upperHexChar_def)

lemma formatOpcode_digits:
  assumes "n < 65536"
  shows "formatOpcode (int n)
           = [CHR ''0'', CHR ''x'', upperHexChar (n div 4096), upperHexChar (n div 256 mod 16),
              upperHexChar (n div 16 mod 16), upperHexChar (n mod 16)]"
proof -
  define a b c d where "a = n div 4096" and "b = n div 256 mod 16"
    and "c = n div 16 mod 16" and "d = n mod 16"
  have q: "n div 16 div 16 = n div 256" "n div 16 div 16 div 16 = n div 4096"
    by (simp_all add: div_mult2_eq [symmetric])
  have a16: "a < 16"
    unfolding a_def using assms by (simp add: less_mult_imp_div_less)
  have bounds: "list_all (\<lambda>d. d < 16) [a, b, c, d]"
    using a16 by (simp add: b_def c_def d_def)
  have m: "n div 4096 mod 16 = a"
    using a16 by (simp add: a_def)
  have z1: "n div 16 = 0 \<Longrightarrow> c = 0 \<and> b = 0 \<and> a = 0"
    using q by (simp add: a_def b_def c_def)
  have z2: "n div 256 = 0 \<Longrightarrow> b = 0 \<and> a = 0"
    using q by (simp add: a_def b_def div_mult2_eq [symmetric])
  have z3: "n div 4096 = 0 \<Longrightarrow> a = 0"
    by (simp add: a_def)
  have h3: "hexDigits (n div 4096) = [hexChar a]"
    using a16 by (subst hexDigits.simps) (simp add: a_def)
  have h2: "hexDigits (n div 256)
              = (if n div 4096 = 0 then [hexChar b] else [hexChar a, hexChar b])"
    using hexDigits_step [of "n div 256"] h3
    by (simp add: b_def div_mult2_eq [symmetric])
  have h1: "hexDigits (n div 16)
              = (if n div 256 = 0 then [hexChar c]
                 else if n div 4096 = 0 then [hexChar b, hexChar c]
                 else [hexChar a, hexChar b, hexChar c])"
    using hexDigits_step [of "n div 16"] h2 by (simp add: c_def q)
  have h0: "hexDigits n
              = (if n div 16 = 0 then [hexChar d]
                 else if n div 256 = 0 then [hexChar c, hexChar d]
                 else if n div 4096 = 0 then [hexChar b, hexChar c, hexChar d]
                 else [hexChar a, hexChar b, hexChar c, hexChar d])"
    using hexDigits_step [of n] h1 by (simp add: d_def)
  have u: "toUpperCase (map hexChar ds) = map upperHexChar ds"
    if "set ds \<subseteq> {a, b, c, d}" for ds
    using that bounds by (intro toUpperCase_hexChars) (auto simp: list_all_iff)
  have u1: "toUpperCase [hexChar d] = [upperHexChar d]"
    and u2: "toUpperCase [hexChar c, hexChar d] = [upperHexChar c, upperHexChar d]"
    and u3: "toUpperCase [hexChar b, hexChar c, hexChar d]
               = [upperHexChar b, upperHexChar c, upperHexChar d]"
    and u4: "toUpperCase [hexChar a, hexChar b, hexChar c, hexChar d]
               = [upperHexChar a, upperHexChar b, upperHexChar c, upperHexChar d]"
    using u [of "[d]"] u [of "[c, d]"] u [of "[b, c, d]"] u [of "[a, b, c, d]"] by simp_all
  have "padStart 4 (CHR ''0'') (toUpperCase (hexDigits n))
          = [upperHexChar a, upperHexChar b, upperHexChar c, upperHexChar d]"
  proof (cases "n div 16 = 0")
    case True
    with z1 h0 u1 show ?thesis
      by (simp add: padStart_def upperHexChar_0 replicate_small)
  next
    case n1: False
    show ?thesis
    proof (cases "n div 256 = 0")
      case True
      with n1 z2 h0 u2 show ?thesis
        by (simp add: padStart_def upperHexChar_0 replicate_small)
    next
      case n2: False
      show ?thesis
      proof (cases "n div 4096 = 0")
        case True
        with n1 n2 z3 h0 u3 show ?thesis
          by (simp add: padStart_def upperHexChar_0 replicate_small)
      next
        case False
        with n1 n2 h0 u4 show ?thesis
          by (simp add: padStart_def)
      qed
    qed
  qed
  then show ?thesis
    by (simp add: formatOpcode_def toString16_def a_def b_def c_def d_def)
qed

lemma upperHexChar_in_digits: "d < 16 \<Longrightarrow> upperHexChar d \<in> set ''0123456789ABCDEF''"
  by (erule all_less_16) (simp_all add: upperHexChar_def)

lemma parseHexOpcode_digits:
  assumes "a < 16" "b < 16" "c < 16" "d < 16"
  shows "parseHexOpcode [CHR ''0'', CHR ''x'', upperHexChar a, upperHexChar b,
                         upperHexChar c, upperHexChar d]
           = Some (4096 * int a + 256 * int b + 16 * int c + int d)"
proof -
  let ?s = "[upperHexChar a, upperHexChar b, upperHexChar c, upperHexChar d]"
  note h = assms [THEN isHexDigit_upperHexChar]
  note w = assms [THEN not_isWhiteSpace_upperHexChar]
  note x = assms [THEN upperHexChar_not_sign_or_x]
  note v = assms [THEN digitValue_upperHexChar]
  have cleaned: "trim (replace_0x (CHR ''0'' # CHR ''x'' # ?s)) = ?s"
    using w by (simp add: trim_def)
  have test: "test_hex_1_4 ?s"
    using h by (simp add: test_hex_1_4_def)
  have "parseInt16 ?s = Some (16 * (16 * (16 * int a + int b) + int c) + int d)"
    using h w x v by (simp add: parseInt16_def hexValue_def)
  moreover have "0 \<le> 16 * (16 * (16 * int a + int b) + int c) + int d"
    by simp
  moreover have "16 * (16 * (16 * int a + int b) + int c) + int d \<le> 0xFFFF"
    using assms by simp
  ultimately show ?thesis
    unfolding parseHexOpcode_def Let_def cleaned using test by simp
qed

lemma hex_digits_combine:
  "n = 16 * x1 + d \<Longrightarrow> x1 = 16 * x2 + c \<Longrightarrow> x2 = 16 * a + b
     \<Longrightarrow> 4096 * a + 256 * b + 16 * c + d = n" for n :: nat
  by simp

lemma hex_digits_value:
  "4096 * (n div 4096) + 256 * (n div 256 mod 16) + 16 * (n div 16 mod 16) + n mod 16 = n"
  for n :: nat
proof -
  have q1: "n div 16 div 16 = n div 256"
    by (simp add: div_mult2_eq [symmetric])
  have q2: "n div 256 div 16 = n div 4096"
    by (simp add: div_mult2_eq [symmetric])
  have f1: "n = 16 * (n div 16) + n mod 16"
    by (rule mult_div_mod_eq [symmetric])
  have "n div 16 = 16 * (n div 16 div 16) + n div 16 mod 16"
    by (rule mult_div_mod_eq [symmetric])
  then have f2: "n div 16 = 16 * (n div 256) + n div 16 mod 16"
    unfolding q1 .
  have "n div 256 = 16 * (n div 256 div 16) + n div 256 mod 16"
    by (rule mult_div_mod_eq [symmetric])
  then have f3: "n div 256 = 16 * (n div 4096) + n div 256 mod 16"
    unfolding q2 .
  from f1 f2 f3 show ?thesis
    by (rule hex_digits_combine)
qed

text \<open>
  C7. For every \<open>n\<close> in \<open>[0, 0xFFFF]\<close>, \<^verbatim>\<open>parseHexOpcode(formatOpcode(n))\<close> is \<open>n\<close>, and
  \<^verbatim>\<open>formatOpcode(n)\<close> is \<^verbatim>\<open>0x\<close> followed by exactly four digits out of
  \<^verbatim>\<open>0123456789ABCDEF\<close>; \<^verbatim>\<open>formatOpcode(0)\<close> is \<^verbatim>\<open>0x0000\<close> and \<^verbatim>\<open>formatOpcode(0xFE01)\<close> is
  \<^verbatim>\<open>0xFE01\<close>.
\<close>

theorem parseHexOpcode_formatOpcode:
  assumes "0 \<le> n" and "n \<le> 0xFFFF"
  shows "parseHexOpcode (formatOpcode n) = Some n
       \<and> (\<exists>d3 d2 d1 d0. formatOpcode n = [CHR ''0'', CHR ''x'', d3, d2, d1, d0]
             \<and> set [d3, d2, d1, d0] \<subseteq> set ''0123456789ABCDEF'')
       \<and> formatOpcode 0 = ''0x0000'' \<and> formatOpcode 0xFE01 = ''0xFE01''"
proof -
  define m where "m = nat n"
  define a b c d where "a = m div 4096" and "b = m div 256 mod 16"
    and "c = m div 16 mod 16" and "d = m mod 16"
  have n: "n = int m" and m: "m < 65536"
    using assms by (simp_all add: m_def)
  have bounds: "a < 16" "b < 16" "c < 16" "d < 16"
    using m by (simp_all add: a_def b_def c_def d_def less_mult_imp_div_less)
  have f: "formatOpcode n = [CHR ''0'', CHR ''x'', upperHexChar a, upperHexChar b,
                              upperHexChar c, upperHexChar d]"
    unfolding n a_def b_def c_def d_def using m by (rule formatOpcode_digits)
  have "4096 * a + 256 * b + 16 * c + d = m"
    unfolding a_def b_def c_def d_def by (rule hex_digits_value)
  then have "int (4096 * a + 256 * b + 16 * c + d) = n"
    by (simp only: n)
  then have v: "4096 * int a + 256 * int b + 16 * int c + int d = n"
    by simp
  have p: "parseHexOpcode (formatOpcode n) = Some n"
    unfolding f using parseHexOpcode_digits [OF bounds] v by simp
  have s: "set [upperHexChar a, upperHexChar b, upperHexChar c, upperHexChar d]
             \<subseteq> set ''0123456789ABCDEF''"
    using bounds [THEN upperHexChar_in_digits] by simp
  have e: "formatOpcode 0 = ''0x0000''" "formatOpcode 0xFE01 = ''0xFE01''"
    using formatOpcode_digits [of 0] formatOpcode_digits [of "0xFE01"]
    by (simp_all add: upperHexChar_def)
  from p f s e show ?thesis
    by blast
qed

theorem parseHexOpcode_formatOpcode_witness:
  "(0 :: int) \<le> 0x1F \<and> (0x1F :: int) \<le> 0xFFFF
   \<and> formatOpcode 0x1F = ''0x001F'' \<and> parseHexOpcode ''0x001F'' = Some 0x1F"
proof -
  have f: "formatOpcode 0x1F = ''0x001F''"
    using formatOpcode_digits [of "0x1F"] by (simp add: upperHexChar_def)
  from parseHexOpcode_formatOpcode [of "0x1F"] show ?thesis
    unfolding f by simp
qed

section \<open>Parameters of a response and the length field\<close>

lemma getUint32_cases:
  "getUint32 view off = Inl RangeError \<and> length view < off + 4
   \<or> (\<exists>p. getUint32 view off = Inr p \<and> off + 4 \<le> length view)"
  by (simp add: getUint32_def)

lemma read_params_throws:
  "int i < cnt \<Longrightarrow> int (length view) < 12 + 4 * cnt
     \<Longrightarrow> read_params view i cnt acc = Inl RangeError"
proof (induction view i cnt acc rule: read_params.induct)
  case (1 view i cnt acc)
  from getUint32_cases [of view "12 + i * 4"] show ?case
  proof (elim disjE conjE exE)
    assume "getUint32 view (12 + i * 4) = Inl RangeError"
    with "1.prems"(1) show ?thesis
      by (subst read_params.simps) simp
  next
    fix p
    assume g: "getUint32 view (12 + i * 4) = Inr p" and l: "12 + i * 4 + 4 \<le> length view"
    from l "1.prems"(2) have "int (Suc i) < cnt"
      by simp
    with "1.IH" [OF "1.prems"(1) g] "1.prems"(2)
    have "read_params view (Suc i) cnt (acc @ [p]) = Inl RangeError"
      by simp
    with "1.prems"(1) g show ?thesis
      by (subst read_params.simps) simp
  qed
qed

lemma read_params_returns:
  "12 + 4 * cnt \<le> int (length view)
     \<Longrightarrow> \<exists>ps. read_params view i cnt acc = Inr (acc @ ps)
            \<and> int (length ps) = max 0 (cnt - int i)
            \<and> (\<forall>j < length ps. getUint32 view (12 + (i + j) * 4) = Inr (ps ! j))"
proof (induction view i cnt acc rule: read_params.induct)
  case (1 view i cnt acc)
  show ?case
  proof (cases "int i < cnt")
    case False
    then show ?thesis
      by (subst read_params.simps) simp
  next
    case True
    with "1.prems" have "12 + i * 4 + 4 \<le> length view"
      by simp
    then obtain p where g: "getUint32 view (12 + i * 4) = Inr p"
      by (auto simp: getUint32_def)
    from "1.IH" [OF True g "1.prems"]
    obtain ps where r: "read_params view (Suc i) cnt (acc @ [p]) = Inr ((acc @ [p]) @ ps)"
      and l: "int (length ps) = max 0 (cnt - int (Suc i))"
      and c: "\<forall>j < length ps. getUint32 view (12 + (Suc i + j) * 4) = Inr (ps ! j)"
      by blast
    have "read_params view i cnt acc = Inr (acc @ (p # ps))"
      using True g r by (subst read_params.simps) simp
    moreover have "int (length (p # ps)) = max 0 (cnt - int i)"
      using True l by (simp add: max_def)
    moreover have "getUint32 view (12 + (i + j) * 4) = Inr ((p # ps) ! j)"
      if "j < length (p # ps)" for j
    proof (cases j)
      case 0
      with g show ?thesis by simp
    next
      case (Suc k)
      with that c show ?thesis by simp
    qed
    ultimately show ?thesis
      by blast
  qed
qed

lemma parseMtpResponse_throws:
  assumes "12 \<le> length data" and "getUint32 data 0 = Inr len"
    and "int (length data) < 12 + 4 * ((len - 12) div 4)"
  shows "parseMtpResponse data = Inl RangeError"
proof -
  have "int 0 < (len - 12) div 4"
    using assms(1,3) by simp
  then have "read_params data 0 ((len - 12) div 4) [] = Inl RangeError"
    using assms(3) by (rule read_params_throws)
  moreover obtain ty code tx where "getUint16 data 4 = Inr ty" "getUint16 data 6 = Inr code"
    "getUint32 data 8 = Inr tx"
    using assms(1) by (simp add: getUint16_def getUint32_def)
  ultimately show ?thesis
    using assms(1,2) by (simp add: parseMtpResponse_def)
qed

lemma parseMtpResponse_returns:
  assumes "12 \<le> length data" and "getUint32 data 0 = Inr len"
    and "12 + 4 * ((len - 12) div 4) \<le> int (length data)"
  shows "\<exists>r. parseMtpResponse data = Inr (Some r) \<and> c_length r = len
           \<and> getUint16 data 4 = Inr (c_type r) \<and> getUint16 data 6 = Inr (c_code r)
           \<and> getUint32 data 8 = Inr (c_transactionId r)
           \<and> int (length (c_params r)) = max 0 ((len - 12) div 4)
           \<and> (\<forall>j < length (c_params r). getUint32 data (12 + j * 4) = Inr (c_params r ! j))"
proof -
  obtain ps where "read_params data 0 ((len - 12) div 4) [] = Inr ([] @ ps)"
    and "int (length ps) = max 0 ((len - 12) div 4 - int 0)"
    and "\<forall>j < length ps. getUint32 data (12 + (0 + j) * 4) = Inr (ps ! j)"
    using read_params_returns [OF assms(3), of 0 "[]"] by blast
  moreover obtain ty code tx where "getUint16 data 4 = Inr ty" "getUint16 data 6 = Inr code"
    "getUint32 data 8 = Inr tx"
    using assms(1) by (simp add: getUint16_def getUint32_def)
  ultimately show ?thesis
    using assms(1,2) by (simp add: parseMtpResponse_def)
qed

text \<open>
  C1, as stated, fails on a 12-byte buffer whose length field says 16: one parameter is claimed
  that the buffer does not hold. \<^verbatim>\<open>parseMtpResponse\<close> does not return the header with the
  parameters that are there; the read of the missing parameter throws \<^verbatim>\<open>RangeError\<close>.
\<close>

theorem parseMtpResponse_overclaimed_length:
  "parseMtpResponse [0x10, 0, 0, 0, 0x03, 0, 0x01, 0x20, 0x01, 0, 0, 0] = Inl RangeError"
  by (simp add: parseMtpResponse_def getUint32_def getUint16_def read_params.simps)

text \<open>
  C1, amended. For a buffer of at least 12 bytes with length field \<open>len\<close>: when the buffer
  holds the \<open>(len - 12) div 4\<close> parameters that the field claims, \<^verbatim>\<open>parseMtpResponse\<close> returns
  the four header fields and exactly that many parameters (none when the count is not
  positive), each one the little-endian word at its offset inside the buffer; when the field
  claims more parameters than the buffer holds, nothing is read past the end of the buffer and
  the parse does not truncate but throws \<^verbatim>\<open>RangeError\<close>.
\<close>

theorem parseMtpResponse_no_truncation:
  assumes "12 \<le> length data" and "getUint32 data 0 = Inr len"
  shows "(12 + 4 * ((len - 12) div 4) \<le> int (length data) \<longrightarrow>
            (\<exists>r. parseMtpResponse data = Inr (Some r) \<and> c_length r = len
               \<and> getUint16 data 4 = Inr (c_type r) \<and> getUint16 data 6 = Inr (c_code r)
               \<and> getUint32 data 8 = Inr (c_transactionId r)
               \<and> int (length (c_params r)) = max 0 ((len - 12) div 4)
               \<and> (\<forall>j < length (c_params r).
                     12 + j * 4 + 4 \<le> length data
                   \<and> getUint32 data (12 + j * 4) = Inr (c_params r ! j))))
       \<and> (int (length data) < 12 + 4 * ((len - 12) div 4) \<longrightarrow>
            parseMtpResponse data = Inl RangeError)"
proof (intro conjI impI)
  assume "12 + 4 * ((len - 12) div 4) \<le> int (length data)"
  from parseMtpResponse_returns [OF assms this]
  obtain r where r: "parseMtpResponse data = Inr (Some r)" "c_length r = len"
    "getUint16 data 4 = Inr (c_type r)" "getUint16 data 6 = Inr (c_code r)"
    "getUint32 data 8 = Inr (c_transactionId r)"
    "int (length (c_params r)) = max 0 ((len - 12) div 4)"
    "\<forall>j < length (c_params r). getUint32 data (12 + j * 4) = Inr (c_params r ! j)"
    by blast
  have "12 + j * 4 + 4 \<le> length data" if "j < length (c_params r)" for j
  proof -
    from r(7) that have "getUint32 data (12 + j * 4) = Inr (c_params r ! j)"
      by simp
    then show ?thesis
      by (simp add: getUint32_def split: if_splits)
  qed
  with r show "\<exists>r. parseMtpResponse data = Inr (Some r) \<and> c_length r = len
               \<and> getUint16 data 4 = Inr (c_type r) \<and> getUint16 data 6 = Inr (c_code r)
               \<and> getUint32 data 8 = Inr (c_transactionId r)
               \<and> int (length (c_params r)) = max 0 ((len - 12) div 4)
               \<and> (\<forall>j < length (c_params r).
                     12 + j * 4 + 4 \<le> length data
                   \<and> getUint32 data (12 + j * 4) = Inr (c_params r ! j))"
    by blast
next
  assume "int (length data) < 12 + 4 * ((len - 12) div 4)"
  with assms show "parseMtpResponse data = Inl RangeError"
    by (rule parseMtpResponse_throws)
qed

theorem parseMtpResponse_no_truncation_witness:
  "12 \<le> length [0x10, 0, 0, 0, 0x03, 0, 0x01, 0x20, 0x01, 0, 0, 0 :: byte]
   \<and> getUint32 [0x10, 0, 0, 0, 0x03, 0, 0x01, 0x20, 0x01, 0, 0, 0] 0 = Inr 16
   \<and> int (length [0x10, 0, 0, 0, 0x03, 0, 0x01, 0x20, 0x01, 0, 0, 0 :: byte])
       < 12 + 4 * ((16 - 12) div 4)
   \<and> parseMtpResponse [0x10, 0, 0, 0, 0x03, 0, 0x01, 0x20, 0x01, 0, 0, 0] = Inl RangeError
   \<and> 12 + 4 * ((16 - 12) div 4)
       \<le> int (length [0x10, 0, 0, 0, 0x03, 0, 0x01, 0x20, 0x01, 0, 0, 0, 0x78, 0x56, 0x34, 0x12
                        :: byte])
   \<and> parseMtpResponse [0x10, 0, 0, 0, 0x03, 0, 0x01, 0x20, 0x01, 0, 0, 0,
                        0x78, 0x56, 0x34, 0x12]
       = Inr (Some \<lparr>c_length = 16, c_type = 3, c_code = 0x2001, c_transactionId = 1,
                    c_params = [0x12345678]\<rparr>)"
proof -
  let ?short = "[0x10, 0, 0, 0, 0x03, 0, 0x01, 0x20, 0x01, 0, 0, 0 :: byte]"
  let ?full = "[0x10, 0, 0, 0, 0x03, 0, 0x01, 0x20, 0x01, 0, 0, 0, 0x78, 0x56, 0x34, 0x12 :: byte]"
  have l: "12 \<le> length ?short" "12 \<le> length ?full"
    by simp_all
  have g: "getUint32 ?short 0 = Inr 16" "getUint32 ?full 0 = Inr 16"
    by (simp_all add: getUint32_def)
  have t: "parseMtpResponse ?short = Inl RangeError"
    using parseMtpResponse_no_truncation [OF l(1) g(1)] by simp
  obtain r where r: "parseMtpResponse ?full = Inr (Some r)" "c_length r = 16"
    "getUint16 ?full 4 = Inr (c_type r)" "getUint16 ?full 6 = Inr (c_code r)"
    "getUint32 ?full 8 = Inr (c_transactionId r)"
    "int (length (c_params r)) = max 0 ((16 - 12) div 4)"
    "\<forall>j < length (c_params r). getUint32 ?full (12 + j * 4) = Inr (c_params r ! j)"
    using parseMtpResponse_no_truncation [OF l(2) g(2)] by auto
  from r(6) obtain p where p: "c_params r = [p]"
    by (cases "c_params r") auto
  with r(7) have "getUint32 ?full 12 = Inr p"
    by simp
  then have "p = 0x12345678"
    by (simp add: getUint32_def)
  with p r(2-5) have "r = \<lparr>c_length = 16, c_type = 3, c_code = 0x2001, c_transactionId = 1,
                    c_params = [0x12345678]\<rparr>"
    by (cases r) (simp add: getUint16_def getUint32_def)
  with r(1) t g l show ?thesis
    by simp
qed

section \<open>The strings that \<^verbatim>\<open>parseHexOpcode\<close> accepts\<close>

lemma isHexDigit_facts:
  assumes "isHexDigit c"
  shows "\<not> isWhiteSpace c" and "c \<noteq> CHR ''-''" and "c \<noteq> CHR ''+''"
    and "c \<noteq> CHR ''x''" and "c \<noteq> CHR ''X''"
    and "0 \<le> digitValue c" and "digitValue c \<le> 15"
  using assms by (auto simp: isHexDigit_def isWhiteSpace_def digitValue_def Let_def)

lemma replace_0x_hex: "list_all isHexDigit s \<Longrightarrow> replace_0x s = s"
  by (cases s rule: replace_0x.cases) (auto dest: isHexDigit_facts)

lemma takeWhile_hex: "list_all isHexDigit s \<Longrightarrow> takeWhile isHexDigit s = s"
  by (induction s) simp_all

lemma parseInt16_hex:
  assumes "list_all isHexDigit s" and "s \<noteq> []"
  shows "parseInt16 s = Some (hexValue s)"
proof -
  from assms obtain c r where s: "s = c # r" and c: "isHexDigit c"
    by (cases s) auto
  have "dropWhile isWhiteSpace s = s"
    using c by (simp add: s isHexDigit_facts)
  moreover have "replace_0x s = s" and "takeWhile isHexDigit s = s"
    using assms(1) by (simp_all add: replace_0x_hex takeWhile_hex)
  moreover have "(case s of [] \<Rightarrow> (1 :: int) | c # _ \<Rightarrow> if c = CHR ''-'' then - 1 else 1) = 1"
    and "(case s of [] \<Rightarrow> s | c # r \<Rightarrow> if c = CHR ''-'' \<or> c = CHR ''+'' then r else s) = s"
    using c by (simp_all add: s isHexDigit_facts)
  ultimately show ?thesis
    using assms(2) unfolding parseInt16_def Let_def hexValue_def
    by (simp only: if_False) simp
qed

lemma foldl_hex_bounds:
  "list_all isHexDigit s \<Longrightarrow> 0 \<le> a \<Longrightarrow>
     0 \<le> foldl (\<lambda>acc c. 16 * acc + digitValue c) a s
   \<and> foldl (\<lambda>acc c. 16 * acc + digitValue c) a s < 16 ^ length s * (a + 1)"
proof (induction s arbitrary: a)
  case Nil
  then show ?case by simp
next
  case (Cons c s)
  then have c: "0 \<le> digitValue c" "digitValue c \<le> 15" and s: "list_all isHexDigit s"
    by (simp_all add: isHexDigit_facts)
  let ?a = "16 * a + digitValue c"
  have a: "0 \<le> ?a"
    using c Cons.prems by simp
  from Cons.IH [OF s a]
  have lo: "0 \<le> foldl (\<lambda>acc c. 16 * acc + digitValue c) ?a s"
    and hi: "foldl (\<lambda>acc c. 16 * acc + digitValue c) ?a s < 16 ^ length s * (?a + 1)"
    by simp_all
  have "?a + 1 \<le> 16 * (a + 1)"
    using c by simp
  then have le: "(16 :: int) ^ length s * (?a + 1) \<le> 16 ^ length s * (16 * (a + 1))"
    by (intro mult_left_mono) simp_all
  have e: "(16 :: int) ^ length s * (16 * (a + 1)) = 16 ^ length (c # s) * (a + 1)"
    by simp
  from less_le_trans [OF hi le]
  have "foldl (\<lambda>acc c. 16 * acc + digitValue c) ?a s < 16 ^ length (c # s) * (a + 1)"
    unfolding e .
  with lo show ?case
    by simp
qed

lemma hexValue_range:
  assumes "test_hex_1_4 s"
  shows "0 \<le> hexValue s" and "hexValue s \<le> 0xFFFF"
proof -
  from assms have h: "list_all isHexDigit s" and l: "length s \<le> 4"
    by (simp_all add: test_hex_1_4_def)
  from foldl_hex_bounds [OF h, of 0]
  have lo: "0 \<le> hexValue s" and hi: "hexValue s < 16 ^ length s"
    by (simp_all add: hexValue_def)
  have "(16 :: int) ^ length s \<le> 16 ^ 4"
    using l by (intro power_increasing) simp_all
  with hi have "hexValue s < 65536"
    by simp
  with lo show "0 \<le> hexValue s" and "hexValue s \<le> 0xFFFF"
    by simp_all
qed

lemma parseHexOpcode_accepts:
  "parseHexOpcode hex =
     (if test_hex_1_4 (trim (replace_0x hex)) then Some (hexValue (trim (replace_0x hex)))
      else None)"
proof (cases "test_hex_1_4 (trim (replace_0x hex))")
  case False
  then show ?thesis by (simp add: parseHexOpcode_def)
next
  case True
  then have "parseInt16 (trim (replace_0x hex)) = Some (hexValue (trim (replace_0x hex)))"
    by (intro parseInt16_hex) (auto simp: test_hex_1_4_def)
  with True hexValue_range [OF True] show ?thesis
    by (simp add: parseHexOpcode_def)
qed

lemma trim_hex: "list_all isHexDigit s \<Longrightarrow> trim s = s"
proof (cases s rule: rev_cases)
  case Nil
  then show ?thesis by (simp add: trim_def)
next
  case (snoc r c)
  assume h: "list_all isHexDigit s"
  with snoc have c: "\<not> isWhiteSpace c"
    by (simp add: isHexDigit_facts)
  have "dropWhile isWhiteSpace s = s"
    using h by (cases s) (simp_all add: isHexDigit_facts)
  with c snoc show ?thesis
    by (simp add: trim_def)
qed

lemma parseHexOpcode_blank_before_prefix:
  assumes "test_hex_1_4 ds"
  shows "parseHexOpcode (CHR '' '' # CHR ''0'' # CHR ''x'' # ds) = None"
    and "parseHexOpcode (CHR ''0'' # CHR ''x'' # ds) = Some (hexValue ds)"
    and "parseHexOpcode (CHR ''0'' # CHR ''x'' # CHR '' '' # ds) = Some (hexValue ds)"
proof -
  from assms have h: "list_all isHexDigit ds" and n: "ds \<noteq> []"
    by (auto simp: test_hex_1_4_def)
  from h n obtain c where c: "last ds = c" "\<not> isWhiteSpace c"
    by (metis isHexDigit_facts(1) last_in_set list_all_iff)
  have t: "trim (CHR '' '' # CHR ''0'' # CHR ''x'' # ds) = CHR ''0'' # CHR ''x'' # ds"
  proof -
    have "dropWhile isWhiteSpace (rev ds @ [CHR ''x'', CHR ''0'']) = rev ds @ [CHR ''x'', CHR ''0'']"
      using h n by (cases ds rule: rev_cases) (simp_all add: isHexDigit_facts)
    then show ?thesis
      by (simp add: trim_def isWhiteSpace_def)
  qed
  have "\<not> test_hex_1_4 (CHR ''0'' # CHR ''x'' # ds)"
    by (simp add: test_hex_1_4_def isHexDigit_def)
  with t show "parseHexOpcode (CHR '' '' # CHR ''0'' # CHR ''x'' # ds) = None"
    by (simp add: parseHexOpcode_accepts)
  show "parseHexOpcode (CHR ''0'' # CHR ''x'' # ds) = Some (hexValue ds)"
    using assms trim_hex [OF h] by (simp add: parseHexOpcode_accepts)
  have "trim (CHR '' '' # ds) = ds"
    using trim_hex [OF h] h n by (cases ds rule: rev_cases) (simp_all add: trim_def isWhiteSpace_def isHexDigit_facts)
  then show "parseHexOpcode (CHR ''0'' # CHR ''x'' # CHR '' '' # ds) = Some (hexValue ds)"
    using assms by (simp add: parseHexOpcode_accepts)
qed

text \<open>
  C4, as stated, fails in both directions, because \<^verbatim>\<open>parseHexOpcode\<close> removes the prefix
  before it trims. With a blank in front of the prefix, the prefix stays and the input is
  rejected; with a blank after the prefix, the input is accepted.
\<close>

theorem parseHexOpcode_prefix_before_trim:
  "parseHexOpcode '' 0xFE01'' = None \<and> stated_parseHexOpcode '' 0xFE01'' = Some 0xFE01
   \<and> parseHexOpcode ''0x FE01'' = Some 0xFE01 \<and> stated_parseHexOpcode ''0x FE01'' = None"
  by (simp add: parseHexOpcode_def stated_parseHexOpcode_def trim_def isWhiteSpace_def
      test_hex_1_4_def isHexDigit_def parseInt16_def hexValue_def digitValue_def)

text \<open>
  C4, amended. \<^verbatim>\<open>parseHexOpcode\<close> removes a \<^verbatim>\<open>0x\<close> or \<^verbatim>\<open>0X\<close> that stands at the very start
  of the input, then strips leading and trailing white space, and accepts exactly when 1 to 4
  hexadecimal digits remain; the result is their value, which lies in \<open>[0, 0xFFFF]\<close>. Every
  other input is invalid.
\<close>

theorem parseHexOpcode_accepted_strings:
  "parseHexOpcode hex =
     (if test_hex_1_4 (trim (replace_0x hex)) then Some (hexValue (trim (replace_0x hex)))
      else None)
   \<and> (test_hex_1_4 (trim (replace_0x hex)) \<longrightarrow>
         0 \<le> hexValue (trim (replace_0x hex)) \<and> hexValue (trim (replace_0x hex)) \<le> 0xFFFF)"
  using parseHexOpcode_accepts [of hex] hexValue_range [of "trim (replace_0x hex)"]
  by blast

theorem parseHexOpcode_accepted_strings_witness:
  "test_hex_1_4 (trim (replace_0x ''0X fe01 '')) \<and> trim (replace_0x ''0X fe01 '') = ''fe01''
   \<and> parseHexOpcode ''0X fe01 '' = Some 0xFE01
   \<and> \<not> test_hex_1_4 (trim (replace_0x ''12345'')) \<and> parseHexOpcode ''12345'' = None"
proof -
  have t: "trim (replace_0x ''0X fe01 '') = ''fe01''" "trim (replace_0x ''12345'') = ''12345''"
    by (simp_all add: trim_def isWhiteSpace_def)
  have h: "test_hex_1_4 ''fe01''" "\<not> test_hex_1_4 ''12345''"
    by (simp_all add: test_hex_1_4_def isHexDigit_def)
  have v: "hexValue ''fe01'' = 0xFE01"
    by (simp add: hexValue_def digitValue_def)
  from parseHexOpcode_accepted_strings [of "''0X fe01 ''"]
    parseHexOpcode_accepted_strings [of "''12345''"]
  show ?thesis
    unfolding t using h v by simp
qed

end
